theory Spec2Isabelle
  imports Main
begin

section \<open>server-fetch: a guarded fetch for server-side use\<close>

text \<open>
  The module \<^verbatim>\<open>src/index.ts\<close> validates a URL (scheme, port, public suffix,
  resolved address) and then calls \<^verbatim>\<open>fetch\<close> under a timeout. Its four functions,
  \<^verbatim>\<open>normalizeIP\<close>, \<^verbatim>\<open>isPrivateHostname\<close>, \<^verbatim>\<open>validateUrl\<close> and \<^verbatim>\<open>serverFetch\<close>, are
  embedded below under their own names. What they import (the URL parser, the public
  suffix list, the resolver, the transport, and the \<^verbatim>\<open>ip-address\<close> package) lies outside
  the module: the first four are parameters of the model (the record \<open>env\<close>), the
  address package is modelled by the functions of the next subsection.
\<close>

subsection \<open>The address package\<close>

text \<open>
  The texts that \<^verbatim>\<open>Address4\<close> and \<^verbatim>\<open>Address6\<close> read, by the notations the two
  constructors tell apart. Spelling inside a notation (leading zeros, letter case, where
  an IPv6 text puts its \<^verbatim>\<open>::\<close>, a zone suffix) is not kept: no function used by the
  module looks at it.
  \<^item> \<open>Dotted a b c d m\<close>: four decimal fields and an optional \<^verbatim>\<open>/m\<close>, as in
    \<^verbatim>\<open>10.0.0.1\<close> or \<^verbatim>\<open>10.0.0.0/8\<close>; it has no colon.
  \<^item> \<open>Hex6 gs m\<close>: colon-separated hexadecimal groups (after expansion of \<^verbatim>\<open>::\<close>) and
    an optional \<^verbatim>\<open>/m\<close>, as in \<^verbatim>\<open>fe80::1\<close> or \<^verbatim>\<open>fc00::/7\<close>.
  \<^item> \<open>Mixed6 gs a b c d m\<close>: hexadecimal groups followed by a dotted quad, as in
    \<^verbatim>\<open>::ffff:10.0.0.1\<close>.
  \<^item> \<open>Malformed colon\<close>: any other text; \<open>colon\<close> tells whether it contains \<^verbatim>\<open>:\<close>.
\<close>

datatype address_text =
    Dotted nat nat nat nat "nat option"
  | Hex6 "nat list" "nat option"
  | Mixed6 "nat list" nat nat nat nat "nat option"
  | Malformed bool

text \<open>
  What the module and its collaborators throw. The constructors \<open>Error_...\<close> are the
  five messages of \<^verbatim>\<open>index.ts\<close>, each with its interpolated value; two errors of
  the module are equal exactly when their messages are.
\<close>

datatype error =
    TypeError_InvalidURL
  | AddressError
  | LookupError string
  | FetchError string
  | AbortError
  | Error_InvalidIPAddress address_text
  | Error_InvalidScheme string
  | Error_InvalidPort "int option"
  | Error_InvalidHostname string
  | Error_PrivateNetwork

record address4 =
  address4 :: address_text
  parsedAddress4 :: "nat list"
  subnetMask4 :: nat

record address6 =
  address6 :: address_text
  parsedAddress6 :: "nat list"
  subnetMask6 :: nat
  v4 :: bool

text \<open>\<^verbatim>\<open>ip.includes(':')\<close> on an address text.\<close>

fun includes_colon :: "address_text \<Rightarrow> bool" where
  "includes_colon (Dotted a b c d m) = False"
| "includes_colon (Hex6 gs m) = True"
| "includes_colon (Mixed6 gs a b c d m) = True"
| "includes_colon (Malformed colon) = colon"

text \<open>
  \<^verbatim>\<open>new Address4(text)\<close>: a subnet suffix above 32 is refused, then the text must be
  four fields of at most 255 (the constructor's regular expression); every other text,
  and every text with a colon, raises \<^verbatim>\<open>AddressError\<close>.
\<close>

fun Address4 :: "address_text \<Rightarrow> error + address4" where
  "Address4 (Dotted a b c d m) =
     (if (case m of None \<Rightarrow> False | Some n \<Rightarrow> 32 < n) then Inl AddressError
      else if a \<le> 255 \<and> b \<le> 255 \<and> c \<le> 255 \<and> d \<le> 255 then
        Inr \<lparr>address4 = Dotted a b c d m, parsedAddress4 = [a, b, c, d],
             subnetMask4 = (case m of None \<Rightarrow> 32 | Some n \<Rightarrow> n)\<rparr>
      else Inl AddressError)"
| "Address4 (Hex6 gs m) = Inl AddressError"
| "Address4 (Mixed6 gs a b c d m) = Inl AddressError"
| "Address4 (Malformed colon) = Inl AddressError"

text \<open>
  \<^verbatim>\<open>new Address6(text)\<close>: a subnet suffix above 128 is refused. Then \<^verbatim>\<open>parse4in6\<close>
  looks at the last colon-separated group: when it is a dotted quad, it sets
  \<^verbatim>\<open>this.v4 = true\<close> and replaces the quad by its two hexadecimal groups; no other
  statement of the class sets \<^verbatim>\<open>v4\<close>. Then \<^verbatim>\<open>parse\<close> expands \<^verbatim>\<open>::\<close> and demands eight
  groups of at most four hexadecimal digits (\<^verbatim>\<open>Incorrect number of groups found\<close>
  otherwise). A dotted quad alone becomes two groups, which is not eight:
  \<^verbatim>\<open>new Address6('10.0.0.1')\<close> raises \<^verbatim>\<open>AddressError\<close>, as every text without a colon does.
\<close>

fun Address6 :: "address_text \<Rightarrow> error + address6" where
  "Address6 (Hex6 gs m) =
     (if (case m of None \<Rightarrow> False | Some n \<Rightarrow> 128 < n) then Inl AddressError
      else if length gs = 8 \<and> list_all (\<lambda>g. g \<le> 65535) gs then
        Inr \<lparr>address6 = Hex6 gs m, parsedAddress6 = gs,
             subnetMask6 = (case m of None \<Rightarrow> 128 | Some n \<Rightarrow> n), v4 = False\<rparr>
      else Inl AddressError)"
| "Address6 (Mixed6 gs a b c d m) =
     (if (case m of None \<Rightarrow> False | Some n \<Rightarrow> 128 < n) then Inl AddressError
      else if a \<le> 255 \<and> b \<le> 255 \<and> c \<le> 255 \<and> d \<le> 255 \<and>
              length gs = 6 \<and> list_all (\<lambda>g. g \<le> 65535) gs then
        Inr \<lparr>address6 = Mixed6 gs a b c d m, parsedAddress6 = gs @ [a * 256 + b, c * 256 + d],
             subnetMask6 = (case m of None \<Rightarrow> 128 | Some n \<Rightarrow> n), v4 = True\<rparr>
      else Inl AddressError)"
| "Address6 (Dotted a b c d m) = Inl AddressError"
| "Address6 (Malformed colon) = Inl AddressError"

text \<open>
  \<^verbatim>\<open>is4()\<close> is \<^verbatim>\<open>return this.v4\<close>: it tells whether the text ended in a dotted quad,
  whatever the groups before it are. It does not look for the prefix \<^verbatim>\<open>::ffff:0:0/96\<close>:
  it is false for \<^verbatim>\<open>::ffff:a00:1\<close> and true for \<^verbatim>\<open>2001:db8::10.0.0.1\<close>.
\<close>

definition is4 :: "address6 \<Rightarrow> bool" where
  "is4 addr = v4 addr"

text \<open>\<^verbatim>\<open>bigInteger()\<close>: the groups read as one number, most significant first.\<close>

definition bigInteger4 :: "address4 \<Rightarrow> nat" where
  "bigInteger4 addr = foldl (\<lambda>v g. v * 256 + g) 0 (parsedAddress4 addr)"

definition bigInteger6 :: "address6 \<Rightarrow> nat" where
  "bigInteger6 addr = foldl (\<lambda>v g. v * 65536 + g) 0 (parsedAddress6 addr)"

text \<open>
  \<^verbatim>\<open>mask(n)\<close> is the first \<open>n\<close> binary digits of the zero-padded address; two such
  prefixes of equal length are equal exactly when the numbers they spell are, so the
  prefix is kept as that number.
\<close>

definition mask4 :: "address4 \<Rightarrow> nat \<Rightarrow> nat" where
  "mask4 addr n = bigInteger4 addr div 2 ^ (32 - n)"

definition mask6 :: "address6 \<Rightarrow> nat \<Rightarrow> nat" where
  "mask6 addr n = bigInteger6 addr div 2 ^ (128 - n)"

text \<open>\<^verbatim>\<open>this.isInSubnet(address)\<close> of \<^verbatim>\<open>common.js\<close>, for each family.\<close>

definition isInSubnet4 :: "address4 \<Rightarrow> address4 \<Rightarrow> bool" where
  "isInSubnet4 this subnet =
     (if subnetMask4 this < subnetMask4 subnet then False
      else mask4 this (subnetMask4 subnet) = mask4 subnet (subnetMask4 subnet))"

definition isInSubnet6 :: "address6 \<Rightarrow> address6 \<Rightarrow> bool" where
  "isInSubnet6 this subnet =
     (if subnetMask6 this < subnetMask6 subnet then False
      else mask6 this (subnetMask6 subnet) = mask6 subnet (subnetMask6 subnet))"

text \<open>\<^verbatim>\<open>correctForm()\<close>: the canonical text, without suffix; for IPv6 it is never dotted.\<close>

definition correctForm4 :: "address4 \<Rightarrow> address_text" where
  "correctForm4 addr =
     (case parsedAddress4 addr of
        [a, b, c, d] \<Rightarrow> Dotted a b c d None
      | _ \<Rightarrow> Malformed False)"

definition correctForm6 :: "address6 \<Rightarrow> address_text" where
  "correctForm6 addr = Hex6 (parsedAddress6 addr) None"

text \<open>
  \<^verbatim>\<open>to4()\<close>: the low 32 bits of the address as an \<^verbatim>\<open>Address4\<close>, built from its dotted
  text (\<^verbatim>\<open>Address4.fromHex\<close>).
\<close>

definition to4 :: "address6 \<Rightarrow> address4" where
  "to4 addr =
     (let low = bigInteger6 addr mod 2 ^ 32;
          a = low div 2 ^ 24; b = low div 2 ^ 16 mod 256;
          c = low div 2 ^ 8 mod 256; d = low mod 256
      in \<lparr>address4 = Dotted a b c d None, parsedAddress4 = [a, b, c, d], subnetMask4 = 32\<rparr>)"

subsection \<open>Constants of the module\<close>

definition DEFAULT_TIMEOUT :: nat where
  "DEFAULT_TIMEOUT = 10000"

definition ALLOWED_PORTS :: "int list" where
  "ALLOWED_PORTS = [80, 443]"

definition ALLOWED_SCHEMES :: "string list" where
  "ALLOWED_SCHEMES = [''http'', ''https'']"

definition AWS_IMDS_ENDPOINT :: address_text where
  "AWS_IMDS_ENDPOINT = Dotted 169 254 169 254 None"

definition PRIVATE_IPV4_RANGES :: "address_text list" where
  "PRIVATE_IPV4_RANGES =
     [Dotted 0 0 0 0 (Some 8),
      Dotted 10 0 0 0 (Some 8),
      Dotted 100 64 0 0 (Some 10),
      Dotted 127 0 0 0 (Some 8),
      Dotted 169 254 0 0 (Some 16),
      Dotted 172 16 0 0 (Some 12),
      Dotted 192 168 0 0 (Some 16),
      Dotted 198 18 0 0 (Some 15),
      Dotted 240 0 0 0 (Some 4)]"

definition PRIVATE_IPV6_RANGES :: "address_text list" where
  "PRIVATE_IPV6_RANGES =
     [Hex6 [0, 0, 0, 0, 0, 0, 0, 1] (Some 128),
      Hex6 [0, 0, 0, 0, 0, 0, 0, 0] (Some 128),
      Hex6 [0xfc00, 0, 0, 0, 0, 0, 0, 0] (Some 7),
      Hex6 [0xfe80, 0, 0, 0, 0, 0, 0, 0] (Some 10)]"

subsection \<open>normalizeIP\<close>

text \<open>
  Every exception of the body is caught and replaced by
  \<^verbatim>\<open>Error(`Invalid IP address: ${ip}`)\<close>.
\<close>

definition normalizeIP :: "address_text \<Rightarrow> error + address_text" where
  "normalizeIP ip =
     (if includes_colon ip then
        (case Address6 ip of
           Inl e \<Rightarrow> Inl (Error_InvalidIPAddress ip)
         | Inr addr6 \<Rightarrow>
             if is4 addr6 then
               (case Address4 (address4 (to4 addr6)) of
                  Inl e \<Rightarrow> Inl (Error_InvalidIPAddress ip)
                | Inr addr4 \<Rightarrow> Inr (correctForm4 addr4))
             else Inr (correctForm6 addr6))
      else
        (case Address4 ip of
           Inl e \<Rightarrow> Inl (Error_InvalidIPAddress ip)
         | Inr addr4 \<Rightarrow> Inr (correctForm4 addr4)))"

subsection \<open>isPrivateHostname\<close>

text \<open>
  \<^verbatim>\<open>lookup(hostname)\<close> of \<^verbatim>\<open>node:dns/promises\<close> answers with one address text and its
  family (4 or 6), or fails.
\<close>

record lookup_address =
  address :: address_text
  family :: nat

text \<open>
  A parsed URL: the fields of the \<^verbatim>\<open>URL\<close> object that the module reads or hands on.
  \<^verbatim>\<open>protocol\<close> ends with the colon, and \<^verbatim>\<open>port\<close> is empty when the text has no port or
  the default port of its scheme.
\<close>

record url =
  href :: string
  protocol :: string
  hostname :: string
  port :: string
  pathname :: string
  search :: string
  hash :: string

text \<open>
  \<^verbatim>\<open>ServerFetchOptions\<close> extends \<^verbatim>\<open>RequestInit\<close> by \<^verbatim>\<open>timeout\<close>. A signal is one the caller
  brought or the one of the controller that \<^verbatim>\<open>serverFetch\<close> creates.
\<close>

datatype signal = CallerSignal nat | ControllerSignal

record RequestInit =
  http_method :: "string option"
  headers :: "(string \<times> string) list"
  body :: "string option"
  credentials :: "string option"
  signal :: "signal option"

record ServerFetchOptions = RequestInit +
  timeout :: "nat option"

text \<open>
  What a call does besides returning: the calls of the resolver, of the timer functions
  and of the transport, and the abort of the controller, in the order they happen.
\<close>

datatype event =
    DnsLookup string
  | NewAbortController
  | SetTimeout nat
  | Fetch url ServerFetchOptions
  | Abort
  | ClearTimeout

text \<open>
  \<^verbatim>\<open>RANGES.some((range) => addr.isInSubnet(new AddressN(range)))\<close>: the ranges are
  parsed one by one, up to the first match.
\<close>

fun some_isInSubnet4 :: "address4 \<Rightarrow> address_text list \<Rightarrow> error + bool" where
  "some_isInSubnet4 addr [] = Inr False"
| "some_isInSubnet4 addr (subnet # ranges) =
     (case Address4 subnet of
        Inl e \<Rightarrow> Inl e
      | Inr r \<Rightarrow> if isInSubnet4 addr r then Inr True else some_isInSubnet4 addr ranges)"

fun some_isInSubnet6 :: "address6 \<Rightarrow> address_text list \<Rightarrow> error + bool" where
  "some_isInSubnet6 addr [] = Inr False"
| "some_isInSubnet6 addr (subnet # ranges) =
     (case Address6 subnet of
        Inl e \<Rightarrow> Inl e
      | Inr r \<Rightarrow> if isInSubnet6 addr r then Inr True else some_isInSubnet6 addr ranges)"

text \<open>
  The whole body stands in one \<^verbatim>\<open>try\<close>: whatever is thrown (by the resolver, by
  \<^verbatim>\<open>normalizeIP\<close>, by a constructor) is replaced by
  \<^verbatim>\<open>Error(`Invalid hostname: ${hostname}`)\<close>. The branch is taken on \<^verbatim>\<open>ip.family\<close>, the
  family the resolver reported, not on the normalized text.
\<close>

definition isPrivateHostname ::
  "(string \<Rightarrow> error + lookup_address) \<Rightarrow> string \<Rightarrow> (error + bool) \<times> event list" where
  "isPrivateHostname lookup_fn host =
     ((case lookup_fn host of
         Inl e \<Rightarrow> Inl (Error_InvalidHostname host)
       | Inr ip \<Rightarrow>
           (case normalizeIP (address ip) of
              Inl e \<Rightarrow> Inl (Error_InvalidHostname host)
            | Inr normalizedIP \<Rightarrow>
                if family ip = 4 then
                  (case Address4 normalizedIP of
                     Inl e \<Rightarrow> Inl (Error_InvalidHostname host)
                   | Inr addr \<Rightarrow>
                       if normalizedIP = AWS_IMDS_ENDPOINT then Inr True
                       else (case some_isInSubnet4 addr PRIVATE_IPV4_RANGES of
                               Inl e \<Rightarrow> Inl (Error_InvalidHostname host)
                             | Inr b \<Rightarrow> Inr b))
                else
                  (case Address6 normalizedIP of
                     Inl e \<Rightarrow> Inl (Error_InvalidHostname host)
                   | Inr addr \<Rightarrow>
                       (case some_isInSubnet6 addr PRIVATE_IPV6_RANGES of
                          Inl e \<Rightarrow> Inl (Error_InvalidHostname host)
                        | Inr b \<Rightarrow> Inr b)))),
      [DnsLookup host])"

subsection \<open>validateUrl\<close>

text \<open>
  \<^verbatim>\<open>parseInt(text, 10)\<close>: leading white space, an optional sign, then the longest run
  of decimal digits; \<open>None\<close> is \<^verbatim>\<open>NaN\<close>. (The port of a parsed URL is empty or a run
  of digits below 65536, far from the range where a JavaScript number rounds.)
\<close>

definition is_space :: "char \<Rightarrow> bool" where
  "is_space ch = (of_char ch \<in> {9, 10, 11, 12, 13, 32 :: nat})"

definition is_digit :: "char \<Rightarrow> bool" where
  "is_digit ch = (48 \<le> (of_char ch :: nat) \<and> (of_char ch :: nat) \<le> 57)"

definition digit_value :: "char \<Rightarrow> nat" where
  "digit_value ch = of_char ch - 48"

definition parseInt :: "string \<Rightarrow> int option" where
  "parseInt text =
     (let trimmed = dropWhile is_space text;
          negative = (case trimmed of [] \<Rightarrow> False | ch # rest \<Rightarrow> ch = CHR ''-'');
          unsigned = (case trimmed of
                        [] \<Rightarrow> []
                      | ch # rest \<Rightarrow> if ch = CHR ''-'' \<or> ch = CHR ''+'' then rest else trimmed);
          digits = takeWhile is_digit unsigned;
          magnitude = int (foldl (\<lambda>v ch. v * 10 + digit_value ch) 0 digits)
      in if digits = [] then None
         else Some (if negative then - magnitude else magnitude))"

text \<open>
  The collaborators of the module: the constructor \<^verbatim>\<open>new URL(text)\<close> of \<^verbatim>\<open>node:url\<close>
  (\<open>None\<close> when it throws its \<^verbatim>\<open>TypeError\<close>), \<^verbatim>\<open>psl.isValid\<close>, \<^verbatim>\<open>lookup\<close> and the
  global \<^verbatim>\<open>fetch\<close>.

  \<^verbatim>\<open>fetch\<close> is awaited while a timer is pending, and which of the two comes first is
  for the network and the event loop to decide, not for the module: the transport is
  given the delay of the pending timer and answers with the race. Either the request
  settles first, with a response or an error of its own, or the timer fires first; the
  callback then aborts the controller, and \<^verbatim>\<open>fetch\<close>, which honours its signal, rejects
  with the error it has for an aborted request.
\<close>

datatype response = Response nat string

datatype race = RequestFirst "error + response" | TimerFirst error

record env =
  URL :: "string \<Rightarrow> url option"
  isValid :: "string \<Rightarrow> bool"
  lookup :: "string \<Rightarrow> error + lookup_address"
  fetch :: "url \<Rightarrow> ServerFetchOptions \<Rightarrow> nat \<Rightarrow> race"

text \<open>
  The checks in the order of the source; each \<^verbatim>\<open>throw\<close> ends the call. \<open>portNumber\<close> is
  the constant \<^verbatim>\<open>port\<close> of the source, a number or \<^verbatim>\<open>NaN\<close>, which no set of numbers
  contains. The events are those of \<^verbatim>\<open>isPrivateHostname\<close>, the only step that has any.
\<close>

definition validateUrl :: "env \<Rightarrow> string \<Rightarrow> (error + url) \<times> event list" where
  "validateUrl env urlString =
     (case URL env urlString of
        None \<Rightarrow> (Inl TypeError_InvalidURL, [])
      | Some parsed \<Rightarrow>
          if butlast (protocol parsed) \<notin> set ALLOWED_SCHEMES then
            (Inl (Error_InvalidScheme (protocol parsed)), [])
          else
            (let portNumber =
                   (if port parsed \<noteq> [] then parseInt (port parsed)
                    else if protocol parsed = ''https:'' then Some 443 else Some 80)
             in if (case portNumber of None \<Rightarrow> True | Some n \<Rightarrow> n \<notin> set ALLOWED_PORTS) then
                  (Inl (Error_InvalidPort portNumber), [])
                else if \<not> isValid env (hostname parsed) then
                  (Inl (Error_InvalidHostname (hostname parsed)), [])
                else
                  (case isPrivateHostname (lookup env) (hostname parsed) of
                     (Inl e, log) \<Rightarrow> (Inl e, log)
                   | (Inr True, log) \<Rightarrow> (Inl Error_PrivateNetwork, log)
                   | (Inr False, log) \<Rightarrow> (Inr parsed, log))))"

subsection \<open>serverFetch\<close>

text \<open>The first argument is a string or a URL object; \<^verbatim>\<open>toString\<close> of the latter is its \<^verbatim>\<open>href\<close>.\<close>

datatype url_arg = UrlString string | UrlObject url

fun toString :: "url_arg \<Rightarrow> string" where
  "toString (UrlString text) = text"
| "toString (UrlObject u) = href u"

text \<open>
  \<^verbatim>\<open>setTimeout(callback, delay)\<close> of Node arms a timer of \<open>delay\<close> milliseconds only when
  \<open>delay\<close> is between 1 and 2147483647; for every other number it arms a timer of one
  millisecond.
\<close>

definition armedDelay :: "nat \<Rightarrow> nat" where
  "armedDelay delay = (if 1 \<le> delay \<and> delay \<le> 2147483647 then delay else 1)"

text \<open>
  After validation: the controller, the timer, the call of \<^verbatim>\<open>fetch\<close> with
  \<^verbatim>\<open>{...options, signal: controller.signal}\<close>, and \<^verbatim>\<open>clearTimeout\<close> in the \<^verbatim>\<open>finally\<close>
  block, which runs however the awaited request ends. The event \<open>SetTimeout\<close> records
  the delay the module passes to \<^verbatim>\<open>setTimeout\<close>.
\<close>

definition serverFetch ::
  "env \<Rightarrow> url_arg \<Rightarrow> ServerFetchOptions \<Rightarrow> (error + response) \<times> event list" where
  "serverFetch env urlArg options =
     (let urlString = toString urlArg in
      case validateUrl env urlString of
        (Inl e, log) \<Rightarrow> (Inl e, log)
      | (Inr validatedUrl, log) \<Rightarrow>
          (let timeoutMs = (case timeout options of None \<Rightarrow> DEFAULT_TIMEOUT | Some t \<Rightarrow> t);
               init = options\<lparr>signal := Some ControllerSignal\<rparr>;
               started = log @ [NewAbortController, SetTimeout timeoutMs, Fetch validatedUrl init]
           in case fetch env validatedUrl init (armedDelay timeoutMs) of
                RequestFirst outcome \<Rightarrow> (outcome, started @ [ClearTimeout])
              | TimerFirst rejection \<Rightarrow> (Inl rejection, started @ [Abort, ClearTimeout])))"

text \<open>Which events are calls of the transport, and which arm a timer.\<close>

fun is_Fetch :: "event \<Rightarrow> bool" where
  "is_Fetch (Fetch u init) = True"
| "is_Fetch ev = False"

fun is_SetTimeout :: "event \<Rightarrow> bool" where
  "is_SetTimeout (SetTimeout ms) = True"
| "is_SetTimeout ev = False"

fun is_DnsLookup :: "event \<Rightarrow> bool" where
  "is_DnsLookup (DnsLookup host) = True"
| "is_DnsLookup ev = False"

subsection \<open>The declared ranges as intervals\<close>

text \<open>
  The specification's reading of the range tables: an address is a number of its
  family, and it lies in the range \<open>base/len\<close> when it is one of the \<open>2 ^ (bits - len)\<close>
  addresses from \<open>base\<close> on.
\<close>

datatype ip_address = V4 nat | V6 nat

definition ipv4_value :: "nat \<Rightarrow> nat \<Rightarrow> nat \<Rightarrow> nat \<Rightarrow> nat" where
  "ipv4_value a b c d = ((a * 256 + b) * 256 + c) * 256 + d"

definition ipv6_value :: "nat list \<Rightarrow> nat" where
  "ipv6_value gs = foldl (\<lambda>v g. v * 65536 + g) 0 gs"

definition cidr_contains :: "nat \<Rightarrow> nat \<Rightarrow> nat \<Rightarrow> nat \<Rightarrow> bool" where
  "cidr_contains bits base len x = (base \<le> x \<and> x < base + 2 ^ (bits - len))"

definition declared_ipv4_ranges :: "(nat \<times> nat) list" where
  "declared_ipv4_ranges =
     [(ipv4_value 0 0 0 0, 8), (ipv4_value 10 0 0 0, 8), (ipv4_value 100 64 0 0, 10),
      (ipv4_value 127 0 0 0, 8), (ipv4_value 169 254 0 0, 16), (ipv4_value 172 16 0 0, 12),
      (ipv4_value 192 168 0 0, 16), (ipv4_value 198 18 0 0, 15), (ipv4_value 240 0 0 0, 4)]"

definition declared_ipv6_ranges :: "(nat \<times> nat) list" where
  "declared_ipv6_ranges =
     [(ipv6_value [0, 0, 0, 0, 0, 0, 0, 1], 128), (ipv6_value [0, 0, 0, 0, 0, 0, 0, 0], 128),
      (ipv6_value [0xfc00, 0, 0, 0, 0, 0, 0, 0], 7), (ipv6_value [0xfe80, 0, 0, 0, 0, 0, 0, 0], 10)]"

fun declared_private :: "ip_address \<Rightarrow> bool" where
  "declared_private (V4 x) =
     (list_ex (\<lambda>(base, len). cidr_contains 32 base len x) declared_ipv4_ranges
      \<or> x = ipv4_value 169 254 169 254)"
| "declared_private (V6 x) =
     list_ex (\<lambda>(base, len). cidr_contains 128 base len x) declared_ipv6_ranges"

text \<open>
  The address a resolver's answer stands for, when the answer is in the notation of its
  family: a dotted quad with family 4, or hexadecimal groups with family 6.
\<close>

definition resolved_address :: "lookup_address \<Rightarrow> ip_address option" where
  "resolved_address ip =
     (case address ip of
        Dotted a b c d m \<Rightarrow>
          if family ip = 4 \<and> m = None \<and> a \<le> 255 \<and> b \<le> 255 \<and> c \<le> 255 \<and> d \<le> 255
          then Some (V4 (ipv4_value a b c d)) else None
      | Hex6 gs m \<Rightarrow>
          if family ip = 6 \<and> m = None \<and> length gs = 8 \<and> list_all (\<lambda>g. g \<le> 65535) gs
          then Some (V6 (ipv6_value gs)) else None
      | Mixed6 gs a b c d m \<Rightarrow> None
      | Malformed colon \<Rightarrow> None)"

text \<open>
  An IPv4-mapped answer: family 6, and the prefix \<^verbatim>\<open>::ffff:0:0/96\<close> before the
  embedded IPv4 address, in the dotted notation (\<^verbatim>\<open>::ffff:10.0.0.1\<close>).
\<close>

definition mapped_dotted :: "nat \<Rightarrow> nat \<Rightarrow> nat \<Rightarrow> nat \<Rightarrow> address_text" where
  "mapped_dotted a b c d = Mixed6 [0, 0, 0, 0, 0, 0xffff] a b c d None"

subsection \<open>The checks as the specification names them\<close>

text \<open>
  The scheme of a parsed URL is its \<^verbatim>\<open>protocol\<close> without the final colon. The effective
  port is the explicit port when the URL has one, else 443 for https and 80 for http.
\<close>

definition scheme_allowed :: "url \<Rightarrow> bool" where
  "scheme_allowed u = (butlast (protocol u) = ''http'' \<or> butlast (protocol u) = ''https'')"

definition effective_port :: "url \<Rightarrow> int option" where
  "effective_port u =
     (if port u = [] then (if protocol u = ''https:'' then Some 443 else Some 80)
      else parseInt (port u))"

definition port_allowed :: "url \<Rightarrow> bool" where
  "port_allowed u = (effective_port u = Some 80 \<or> effective_port u = Some 443)"

text \<open>
  The same in the terms of a URL text: a scheme, and an explicit port or none. The URL
  object has the scheme with a colon as its \<^verbatim>\<open>protocol\<close>, and as its \<^verbatim>\<open>port\<close> the
  decimal numeral of the explicit port, or the empty string.
\<close>

definition digit_char :: "nat \<Rightarrow> char" where
  "digit_char d = char_of (48 + d)"

fun decimal :: "nat \<Rightarrow> string" where
  "decimal n = (if n < 10 then [digit_char n] else decimal (n div 10) @ [digit_char (n mod 10)])"

fun port_text :: "nat option \<Rightarrow> string" where
  "port_text None = []"
| "port_text (Some n) = decimal n"

fun explicit_or_default :: "string \<Rightarrow> nat option \<Rightarrow> nat" where
  "explicit_or_default scheme (Some n) = n"
| "explicit_or_default scheme None = (if scheme = ''https'' then 443 else 80)"

subsection \<open>Sample environments\<close>

definition sample_url :: "string \<Rightarrow> string \<Rightarrow> string \<Rightarrow> url" where
  "sample_url scheme host portText =
     \<lparr>href = scheme @ ''://'' @ host @ (if portText = [] then [] else '':'' @ portText) @ ''/'',
      protocol = scheme @ '':'', hostname = host, port = portText,
      pathname = ''/'', search = [], hash = []\<rparr>"

text \<open>
  A sample transport is told by how long it takes: \<open>SettlesAfter d outcome\<close> settles with
  \<open>outcome\<close> before every timer of more than \<open>d\<close> milliseconds and after the others;
  \<open>NeverSettles\<close> outlasts every timer. Aborted, it rejects with \<open>AbortError\<close>.
\<close>

datatype settlement = SettlesAfter nat "error + response" | NeverSettles

fun sample_race :: "settlement \<Rightarrow> nat \<Rightarrow> race" where
  "sample_race NeverSettles delay = TimerFirst AbortError"
| "sample_race (SettlesAfter d outcome) delay =
     (if d < delay then RequestFirst outcome else TimerFirst AbortError)"

definition sample_env :: "url option \<Rightarrow> bool \<Rightarrow> error + lookup_address \<Rightarrow> settlement \<Rightarrow> env" where
  "sample_env parsed suffixOk answer settles =
     \<lparr>URL = (\<lambda>text. parsed), isValid = (\<lambda>host. suffixOk),
      lookup = (\<lambda>host. answer), fetch = (\<lambda>u init delay. sample_race settles delay)\<rparr>"

definition sample_options :: ServerFetchOptions where
  "sample_options =
     \<lparr>http_method = Some ''POST'', headers = [(''accept'', ''text/html'')], body = Some ''q=7'',
      credentials = Some ''omit'', signal = Some (CallerSignal 7), timeout = Some 2500\<rparr>"

definition no_options :: ServerFetchOptions where
  "no_options =
     \<lparr>http_method = None, headers = [], body = None, credentials = None, signal = None,
      timeout = None\<rparr>"

section \<open>Properties of the address package and of the range tables\<close>

lemma prefix_eq_iff_interval:
  fixes x base :: nat
  assumes "base mod 2 ^ k = 0"
  shows "(x div 2 ^ k = base div 2 ^ k) \<longleftrightarrow> (base \<le> x \<and> x < base + 2 ^ k)"
proof -
  define d :: nat where "d = 2 ^ k"
  define q where "q = base div d"
  have d: "0 < d" by (simp add: d_def)
  have b: "base = q * d"
    using assms div_mult_mod_eq [of base d] by (simp add: q_def d_def)
  have "(x div d = q) \<longleftrightarrow> (q * d \<le> x \<and> x < q * d + d)"
  proof
    assume "x div d = q"
    then have "x = q * d + x mod d"
      using div_mult_mod_eq [of x d] by simp
    moreover have "x mod d < d" using d by simp
    ultimately show "q * d \<le> x \<and> x < q * d + d" by linarith
  next
    assume "q * d \<le> x \<and> x < q * d + d"
    then show "x div d = q"
      by (intro div_nat_eqI) (simp_all add: mult.commute)
  qed
  note key = this
  have "(x div 2 ^ k = base div 2 ^ k) \<longleftrightarrow> (x div d = q)"
    by (simp add: d_def q_def)
  also have "\<dots> \<longleftrightarrow> (q * d \<le> x \<and> x < q * d + d)"
    by (rule key)
  also have "\<dots> \<longleftrightarrow> (base \<le> x \<and> x < base + 2 ^ k)"
    using b by (simp add: d_def)
  finally show ?thesis .
qed

lemma isInSubnet4_interval:
  assumes "subnetMask4 addr = 32" and "subnetMask4 r \<le> 32"
    and "bigInteger4 r mod 2 ^ (32 - subnetMask4 r) = 0"
  shows "isInSubnet4 addr r = cidr_contains 32 (bigInteger4 r) (subnetMask4 r) (bigInteger4 addr)"
  using assms prefix_eq_iff_interval [of "bigInteger4 r" "32 - subnetMask4 r" "bigInteger4 addr"]
  by (simp add: isInSubnet4_def mask4_def cidr_contains_def)

lemma isInSubnet6_interval:
  assumes "subnetMask6 addr = 128" and "subnetMask6 r \<le> 128"
    and "bigInteger6 r mod 2 ^ (128 - subnetMask6 r) = 0"
  shows "isInSubnet6 addr r = cidr_contains 128 (bigInteger6 r) (subnetMask6 r) (bigInteger6 addr)"
  using assms prefix_eq_iff_interval [of "bigInteger6 r" "128 - subnetMask6 r" "bigInteger6 addr"]
  by (simp add: isInSubnet6_def mask6_def cidr_contains_def)

lemma some_isInSubnet4_table:
  assumes "subnetMask4 addr = 32"
  shows "some_isInSubnet4 addr PRIVATE_IPV4_RANGES =
           Inr (list_ex (\<lambda>(base, len). cidr_contains 32 base len (bigInteger4 addr))
                  declared_ipv4_ranges)"
  unfolding PRIVATE_IPV4_RANGES_def declared_ipv4_ranges_def
  by (simp add: isInSubnet4_interval [OF assms] bigInteger4_def ipv4_value_def)

lemma some_isInSubnet6_table:
  assumes "subnetMask6 addr = 128"
  shows "some_isInSubnet6 addr PRIVATE_IPV6_RANGES =
           Inr (list_ex (\<lambda>(base, len). cidr_contains 128 base len (bigInteger6 addr))
                  declared_ipv6_ranges)"
  unfolding PRIVATE_IPV6_RANGES_def declared_ipv6_ranges_def
  by (simp add: isInSubnet6_interval [OF assms] bigInteger6_def ipv6_value_def)

lemma base256:
  fixes x y :: nat
  assumes "y \<le> 255"
  shows "(x * 256 + y) div 256 = x" and "(x * 256 + y) mod 256 = y"
  using assms by simp_all

lemma ipv4_value_unpack:
  assumes "b \<le> 255" "c \<le> 255" "d \<le> 255"
  shows "ipv4_value a b c d mod 256 = d"
    and "ipv4_value a b c d div 256 mod 256 = c"
    and "ipv4_value a b c d div 256 div 256 mod 256 = b"
    and "ipv4_value a b c d div 256 div 256 div 256 = a"
  unfolding ipv4_value_def by (simp_all only: base256 assms)

lemma ipv4_value_inject:
  assumes "b \<le> 255" "c \<le> 255" "d \<le> 255" "b' \<le> 255" "c' \<le> 255" "d' \<le> 255"
  shows "(ipv4_value a b c d = ipv4_value a' b' c' d') \<longleftrightarrow> (a = a' \<and> b = b' \<and> c = c' \<and> d = d')"
proof
  assume e: "ipv4_value a b c d = ipv4_value a' b' c' d'"
  have "ipv4_value a b c d mod 256 = ipv4_value a' b' c' d' mod 256"
       "ipv4_value a b c d div 256 mod 256 = ipv4_value a' b' c' d' div 256 mod 256"
       "ipv4_value a b c d div 256 div 256 mod 256 = ipv4_value a' b' c' d' div 256 div 256 mod 256"
       "ipv4_value a b c d div 256 div 256 div 256 = ipv4_value a' b' c' d' div 256 div 256 div 256"
    by (simp_all only: e)
  then show "a = a' \<and> b = b' \<and> c = c' \<and> d = d'"
    by (simp only: ipv4_value_unpack assms)
next
  assume "a = a' \<and> b = b' \<and> c = c' \<and> d = d'"
  then show "ipv4_value a b c d = ipv4_value a' b' c' d'" by simp
qed

lemma normalizeIP_Dotted:
  assumes "a \<le> 255" "b \<le> 255" "c \<le> 255" "d \<le> 255"
    and "case m of None \<Rightarrow> True | Some n \<Rightarrow> n \<le> 32"
  shows "normalizeIP (Dotted a b c d m) = Inr (Dotted a b c d None)"
  using assms by (simp add: normalizeIP_def correctForm4_def split: option.splits)

lemma normalizeIP_Hex6:
  assumes "length gs = 8" "list_all (\<lambda>g. g \<le> 65535) gs"
    and "case m of None \<Rightarrow> True | Some n \<Rightarrow> n \<le> 128"
  shows "normalizeIP (Hex6 gs m) = Inr (Hex6 gs None)"
  using assms by (simp add: normalizeIP_def correctForm6_def is4_def split: option.splits)

lemma isPrivateHostname_family4:
  assumes "lookup_fn host = Inr ip" and "family ip = 4" and "address ip = Dotted a b c d None"
    and "a \<le> 255" "b \<le> 255" "c \<le> 255" "d \<le> 255"
  shows "isPrivateHostname lookup_fn host =
           (Inr (declared_private (V4 (ipv4_value a b c d))), [DnsLookup host])"
proof -
  let ?addr = "\<lparr>address4 = Dotted a b c d None, parsedAddress4 = [a, b, c, d], subnetMask4 = 32\<rparr>"
  have n: "normalizeIP (address ip) = Inr (Dotted a b c d None)"
    using assms by (simp add: normalizeIP_Dotted)
  have p: "Address4 (Dotted a b c d None) = Inr ?addr"
    using assms by simp
  have v: "bigInteger4 ?addr = ipv4_value a b c d"
    by (simp add: bigInteger4_def ipv4_value_def)
  have imds: "(Dotted a b c d None = AWS_IMDS_ENDPOINT) \<longleftrightarrow>
              (ipv4_value a b c d = ipv4_value 169 254 169 254)"
    using assms by (simp add: AWS_IMDS_ENDPOINT_def ipv4_value_inject)
  have t: "some_isInSubnet4 ?addr PRIVATE_IPV4_RANGES =
             Inr (list_ex (\<lambda>(base, len). cidr_contains 32 base len (ipv4_value a b c d))
                    declared_ipv4_ranges)"
    using some_isInSubnet4_table [of ?addr] by (simp add: v)
  show ?thesis
    unfolding isPrivateHostname_def assms(1) sum.case n assms(2) p imds t
    by simp
qed

lemma isPrivateHostname_family6:
  assumes "lookup_fn host = Inr ip" and "family ip = 6" and "address ip = Hex6 gs None"
    and "length gs = 8" "list_all (\<lambda>g. g \<le> 65535) gs"
  shows "isPrivateHostname lookup_fn host =
           (Inr (declared_private (V6 (ipv6_value gs))), [DnsLookup host])"
proof -
  let ?addr = "\<lparr>address6 = Hex6 gs None, parsedAddress6 = gs, subnetMask6 = 128, v4 = False\<rparr>"
  have n: "normalizeIP (address ip) = Inr (Hex6 gs None)"
    using assms by (simp add: normalizeIP_Hex6)
  have p: "Address6 (Hex6 gs None) = Inr ?addr"
    using assms by simp
  have v: "bigInteger6 ?addr = ipv6_value gs"
    by (simp add: bigInteger6_def ipv6_value_def)
  have t: "some_isInSubnet6 ?addr PRIVATE_IPV6_RANGES =
             Inr (list_ex (\<lambda>(base, len). cidr_contains 128 base len (ipv6_value gs))
                    declared_ipv6_ranges)"
    using some_isInSubnet6_table [of ?addr] by (simp add: v)
  show ?thesis
    unfolding isPrivateHostname_def assms(1) sum.case n assms(2) p t
    by simp
qed

lemma isPrivateHostname_resolved:
  assumes "lookup_fn host = Inr ip" and "resolved_address ip = Some x"
  shows "isPrivateHostname lookup_fn host = (Inr (declared_private x), [DnsLookup host])"
proof (cases "address ip")
  case (Dotted a b c d m)
  with assms(2) show ?thesis
    using isPrivateHostname_family4 [of lookup_fn host ip a b c d] assms(1)
    by (auto simp add: resolved_address_def split: if_splits)
next
  case (Hex6 gs m)
  with assms(2) show ?thesis
    using isPrivateHostname_family6 [of lookup_fn host ip gs] assms(1)
    by (auto simp add: resolved_address_def split: if_splits)
next
  case (Mixed6 gs a b c d m)
  with assms(2) show ?thesis by (simp add: resolved_address_def)
next
  case (Malformed colon)
  with assms(2) show ?thesis by (simp add: resolved_address_def)
qed

lemma ipv4_value_bound:
  assumes "a \<le> 255" "b \<le> 255" "c \<le> 255" "d \<le> 255"
  shows "ipv4_value a b c d < 2 ^ 32"
  using assms unfolding ipv4_value_def by simp

lemma ipv4_value_octets:
  assumes "b \<le> 255" "c \<le> 255" "d \<le> 255"
  shows "ipv4_value a b c d div 2 ^ 24 = a"
    and "ipv4_value a b c d div 2 ^ 16 mod 256 = b"
    and "ipv4_value a b c d div 2 ^ 8 mod 256 = c"
proof -
  have "ipv4_value a b c d div 2 ^ 24 = ipv4_value a b c d div 256 div 256 div 256"
    and "ipv4_value a b c d div 2 ^ 16 = ipv4_value a b c d div 256 div 256"
    and "ipv4_value a b c d div 2 ^ 8 = ipv4_value a b c d div 256"
    by (simp_all add: div_mult2_eq [symmetric])
  then show "ipv4_value a b c d div 2 ^ 24 = a"
    and "ipv4_value a b c d div 2 ^ 16 mod 256 = b"
    and "ipv4_value a b c d div 2 ^ 8 mod 256 = c"
    by (simp_all only: ipv4_value_unpack assms)
qed

lemma bigInteger6_Mixed6:
  assumes "a \<le> 255" "b \<le> 255" "c \<le> 255" "d \<le> 255" and "parsedAddress6 addr = gs @ [a * 256 + b, c * 256 + d]"
  shows "bigInteger6 addr mod 2 ^ 32 = ipv4_value a b c d"
proof -
  have "bigInteger6 addr = foldl (\<lambda>v g. v * 65536 + g) 0 gs * 2 ^ 32 + ipv4_value a b c d"
    by (simp add: bigInteger6_def assms(5) ipv4_value_def)
  then show ?thesis
    using ipv4_value_bound [OF assms(1-4)] by simp
qed

lemma to4_Mixed6:
  assumes "a \<le> 255" "b \<le> 255" "c \<le> 255" "d \<le> 255" and "parsedAddress6 addr = gs @ [a * 256 + b, c * 256 + d]"
  shows "to4 addr = \<lparr>address4 = Dotted a b c d None, parsedAddress4 = [a, b, c, d], subnetMask4 = 32\<rparr>"
  unfolding to4_def bigInteger6_Mixed6 [OF assms] Let_def
  by (simp only: ipv4_value_octets ipv4_value_unpack assms)

lemma normalizeIP_Mixed6:
  assumes "a \<le> 255" "b \<le> 255" "c \<le> 255" "d \<le> 255"
    and "length gs = 6" "list_all (\<lambda>g. g \<le> 65535) gs"
    and "case m of None \<Rightarrow> True | Some n \<Rightarrow> n \<le> 128"
  shows "normalizeIP (Mixed6 gs a b c d m) = Inr (Dotted a b c d None)"
proof -
  let ?addr = "\<lparr>address6 = Mixed6 gs a b c d m, parsedAddress6 = gs @ [a * 256 + b, c * 256 + d],
               subnetMask6 = (case m of None \<Rightarrow> 128 | Some n \<Rightarrow> n), v4 = True\<rparr>"
  have p: "Address6 (Mixed6 gs a b c d m) = Inr ?addr"
    using assms by (simp split: option.splits)
  have t: "to4 ?addr = \<lparr>address4 = Dotted a b c d None, parsedAddress4 = [a, b, c, d], subnetMask4 = 32\<rparr>"
    using assms by (intro to4_Mixed6) simp_all
  show ?thesis
    using assms(1-4) by (simp add: normalizeIP_def p is4_def t correctForm4_def del: Address6.simps)
qed

lemma normalizeIP_Malformed:
  assumes "isl (Address4 text)" and "isl (Address6 text)"
  shows "normalizeIP text = Inl (Error_InvalidIPAddress text)"
  using assms by (cases "Address4 text"; cases "Address6 text") (simp_all add: normalizeIP_def)

lemma isPrivateHostname_lookup_fails:
  assumes "lookup_fn host = Inl e"
  shows "isPrivateHostname lookup_fn host = (Inl (Error_InvalidHostname host), [DnsLookup host])"
  using assms by (simp add: isPrivateHostname_def)

lemma isPrivateHostname_malformed:
  assumes "lookup_fn host = Inr ip" and "isl (Address4 (address ip))" and "isl (Address6 (address ip))"
  shows "isPrivateHostname lookup_fn host = (Inl (Error_InvalidHostname host), [DnsLookup host])"
  using assms by (simp add: isPrivateHostname_def normalizeIP_Malformed)

lemma Address6_Mixed6_valid:
  assumes "Address6 (Mixed6 gs a b c d m) = Inr addr"
  shows "a \<le> 255 \<and> b \<le> 255 \<and> c \<le> 255 \<and> d \<le> 255 \<and> length gs = 6 \<and>
         list_all (\<lambda>g. g \<le> 65535) gs \<and> (case m of None \<Rightarrow> True | Some n \<Rightarrow> n \<le> 128)"
  using assms by (auto split: if_splits option.splits)

lemma isPrivateHostname_dotted_tail:
  assumes "lookup_fn host = Inr ip" and "family ip \<noteq> 4" and "address ip = Mixed6 gs a b c d m"
  shows "isPrivateHostname lookup_fn host = (Inl (Error_InvalidHostname host), [DnsLookup host])"
proof (cases "Address6 (Mixed6 gs a b c d m)")
  case (Inl e)
  then have "normalizeIP (address ip) = Inl (Error_InvalidIPAddress (address ip))"
    by (simp add: normalizeIP_def assms(3) del: Address6.simps)
  with assms(1) show ?thesis by (simp add: isPrivateHostname_def)
next
  case (Inr addr)
  then have "normalizeIP (address ip) = Inr (Dotted a b c d None)"
    using Address6_Mixed6_valid [OF Inr] by (simp add: assms(3) normalizeIP_Mixed6)
  with assms(1,2) show ?thesis by (simp add: isPrivateHostname_def)
qed

section \<open>Properties of validateUrl and serverFetch\<close>

lemma isPrivateHostname_log: "snd (isPrivateHostname lookup_fn host) = [DnsLookup host]"
  by (simp add: isPrivateHostname_def)

lemma scheme_check: "(butlast (protocol u) \<notin> set ALLOWED_SCHEMES) = (\<not> scheme_allowed u)"
  by (simp add: scheme_allowed_def ALLOWED_SCHEMES_def)

lemma port_expression:
  "(if port u \<noteq> [] then parseInt (port u)
    else if protocol u = ''https:'' then Some 443 else Some 80) = effective_port u"
  by (simp add: effective_port_def)

lemma port_check:
  "(case effective_port u of None \<Rightarrow> True | Some n \<Rightarrow> n \<notin> set ALLOWED_PORTS) = (\<not> port_allowed u)"
  by (simp add: port_allowed_def ALLOWED_PORTS_def split: option.splits)

lemma validateUrl_steps:
  "validateUrl env s =
     (case URL env s of
        None \<Rightarrow> (Inl TypeError_InvalidURL, [])
      | Some u \<Rightarrow>
          if \<not> scheme_allowed u then (Inl (Error_InvalidScheme (protocol u)), [])
          else if \<not> port_allowed u then (Inl (Error_InvalidPort (effective_port u)), [])
          else if \<not> isValid env (hostname u) then (Inl (Error_InvalidHostname (hostname u)), [])
          else ((case fst (isPrivateHostname (lookup env) (hostname u)) of
                   Inl e \<Rightarrow> Inl e
                 | Inr True \<Rightarrow> Inl Error_PrivateNetwork
                 | Inr False \<Rightarrow> Inr u),
                [DnsLookup (hostname u)]))"
proof (cases "URL env s")
  case None
  then show ?thesis by (simp add: validateUrl_def)
next
  case (Some u)
  obtain r where r: "isPrivateHostname (lookup env) (hostname u) = (r, [DnsLookup (hostname u)])"
    using isPrivateHostname_log [of "lookup env" "hostname u"]
    by (cases "isPrivateHostname (lookup env) (hostname u)") simp
  show ?thesis
    unfolding validateUrl_def Some option.case scheme_check port_expression Let_def port_check
    by (simp add: r split: sum.splits bool.splits)
qed

lemma validateUrl_log: "list_all is_DnsLookup (snd (validateUrl env s))"
  by (simp add: validateUrl_steps split: option.splits)

lemma validateUrl_accepts:
  "fst (validateUrl env s) = Inr u \<Longrightarrow>
   URL env s = Some u \<and> snd (validateUrl env s) = [DnsLookup (hostname u)]"
  by (auto simp add: validateUrl_steps split: option.splits if_splits sum.splits bool.splits)

lemma serverFetch_rejected:
  "fst (validateUrl env (toString a)) = Inl e \<Longrightarrow>
   serverFetch env a opts = (Inl e, snd (validateUrl env (toString a)))"
  by (cases "validateUrl env (toString a)") (simp add: serverFetch_def)

lemma serverFetch_accepted:
  "fst (validateUrl env (toString a)) = Inr u \<Longrightarrow>
   serverFetch env a opts =
     (let ms = (case timeout opts of None \<Rightarrow> DEFAULT_TIMEOUT | Some t \<Rightarrow> t);
          init = opts\<lparr>signal := Some ControllerSignal\<rparr>;
          started = snd (validateUrl env (toString a)) @
                    [NewAbortController, SetTimeout ms, Fetch u init]
      in case fetch env u init (armedDelay ms) of
           RequestFirst outcome \<Rightarrow> (outcome, started @ [ClearTimeout])
         | TimerFirst rejection \<Rightarrow> (Inl rejection, started @ [Abort, ClearTimeout]))"
  by (cases "validateUrl env (toString a)")
     (auto simp add: serverFetch_def Let_def split: race.splits)

lemma no_Fetch_in_validation: "\<not> list_ex is_Fetch (snd (validateUrl env s))"
  by (simp add: validateUrl_steps split: option.splits)

lemma no_timer_in_validation:
  "\<not> list_ex is_SetTimeout (snd (validateUrl env s)) \<and>
   NewAbortController \<notin> set (snd (validateUrl env s)) \<and>
   ClearTimeout \<notin> set (snd (validateUrl env s)) \<and> Abort \<notin> set (snd (validateUrl env s))"
  by (simp add: validateUrl_steps split: option.splits)

lemma isPrivateHostname_error:
  "fst (isPrivateHostname lookup_fn host) = Inl e \<Longrightarrow> e = Error_InvalidHostname host"
  by (auto simp add: isPrivateHostname_def split: sum.splits if_splits)

lemma validateUrl_port_error:
  "fst (validateUrl env s) = Inl (Error_InvalidPort n) \<Longrightarrow>
   \<exists>u. URL env s = Some u \<and> scheme_allowed u \<and> \<not> port_allowed u"
  by (auto simp add: validateUrl_steps split: option.splits if_splits sum.splits bool.splits
      dest: isPrivateHostname_error)

lemmas sample_defs = sample_env_def sample_url_def no_options_def

lemmas check_defs = scheme_allowed_def port_allowed_def effective_port_def parseInt_def
  is_space_def is_digit_def digit_value_def

lemmas lib_defs = normalizeIP_def is4_def to4_def bigInteger6_def bigInteger4_def correctForm4_def
  correctForm6_def mask4_def mask6_def isInSubnet4_def isInSubnet6_def AWS_IMDS_ENDPOINT_def
  PRIVATE_IPV4_RANGES_def PRIVATE_IPV6_RANGES_def

lemma loopback_is_private:
  "isPrivateHostname (\<lambda>host. Inr \<lparr>address = Dotted 127 0 0 53 None, family = 4\<rparr>) h
     = (Inr True, [DnsLookup h])"
  by (simp add: isPrivateHostname_def lib_defs)

lemma public_v4_is_not_private:
  "isPrivateHostname (\<lambda>host. Inr \<lparr>address = Dotted 93 184 216 34 None, family = 4\<rparr>) h
     = (Inr False, [DnsLookup h])"
  by (simp add: isPrivateHostname_def lib_defs)

lemma validateUrl_never_accepts:
  assumes "URL env s = Some u"
    and "fst (isPrivateHostname (lookup env) (hostname u)) \<noteq> Inr False"
  shows "fst (validateUrl env s) \<noteq> Inr u'"
  using assms by (auto simp add: validateUrl_steps split: sum.splits bool.splits)

lemma validateUrl_hostname_error:
  assumes "URL env s = Some u" and "scheme_allowed u" and "port_allowed u"
    and "fst (isPrivateHostname (lookup env) (hostname u)) = Inl e"
  shows "validateUrl env s = (Inl (Error_InvalidHostname (hostname u)), 
           if isValid env (hostname u) then [DnsLookup (hostname u)] else [])"
  using assms isPrivateHostname_error [OF assms(4)]
  by (simp add: validateUrl_steps)


lemma validateUrl_InvalidHostname_origin:
  assumes "fst (validateUrl env s) = Inl (Error_InvalidHostname h)"
  shows "\<exists>u. URL env s = Some u \<and> hostname u = h \<and> scheme_allowed u \<and> port_allowed u \<and>
           (\<not> isValid env h \<or> isl (fst (isPrivateHostname (lookup env) h)))"
proof (cases "URL env s")
  case None
  with assms show ?thesis by (simp add: validateUrl_steps)
next
  case (Some u)
  with assms have ok: "scheme_allowed u" "port_allowed u"
    by (auto simp add: validateUrl_steps split: if_splits)
  show ?thesis
  proof (cases "isValid env (hostname u)")
    case False
    with assms Some ok show ?thesis by (simp add: validateUrl_steps)
  next
    case True
    with assms Some ok have
      "(case fst (isPrivateHostname (lookup env) (hostname u)) of
          Inl e \<Rightarrow> Inl e | Inr True \<Rightarrow> Inl Error_PrivateNetwork | Inr False \<Rightarrow> Inr u)
       = Inl (Error_InvalidHostname h)"
      by (simp add: validateUrl_steps)
    then have e: "fst (isPrivateHostname (lookup env) (hostname u)) = Inl (Error_InvalidHostname h)"
      by (simp split: sum.splits bool.splits)
    from isPrivateHostname_error [OF e] have "hostname u = h" by simp
    with e Some ok show ?thesis by simp
  qed
qed

lemma validateUrl_error_origin:
  "(fst (validateUrl env s) = Inl TypeError_InvalidURL \<longrightarrow> URL env s = None) \<and>
   (fst (validateUrl env s) = Inl (Error_InvalidScheme p) \<longrightarrow>
      (\<exists>u. URL env s = Some u \<and> protocol u = p \<and> \<not> scheme_allowed u)) \<and>
   (fst (validateUrl env s) = Inl (Error_InvalidPort n) \<longrightarrow>
      (\<exists>u. URL env s = Some u \<and> effective_port u = n \<and> scheme_allowed u \<and> \<not> port_allowed u)) \<and>
   (fst (validateUrl env s) = Inl Error_PrivateNetwork \<longrightarrow>
      (\<exists>u. URL env s = Some u \<and> scheme_allowed u \<and> port_allowed u \<and> isValid env (hostname u) \<and>
           fst (isPrivateHostname (lookup env) (hostname u)) = Inr True))"
  by (auto simp add: validateUrl_steps split: option.splits if_splits sum.splits bool.splits
      dest: isPrivateHostname_error)

lemma digit_char_facts:
  assumes "d < 10"
  shows "is_digit (digit_char d)" and "\<not> is_space (digit_char d)"
    and "digit_char d \<noteq> CHR ''-''" and "digit_char d \<noteq> CHR ''+''"
    and "digit_value (digit_char d) = d"
proof -
  have c: "of_char (digit_char d) = 48 + d"
    using assms by (simp add: digit_char_def)
  show "is_digit (digit_char d)" using assms by (simp add: is_digit_def c)
  show "\<not> is_space (digit_char d)" using assms by (simp add: is_space_def c)
  show "digit_value (digit_char d) = d" by (simp add: digit_value_def c)
  have "of_char (digit_char d) \<noteq> (of_char CHR ''-'' :: nat)"
    and "of_char (digit_char d) \<noteq> (of_char CHR ''+'' :: nat)"
    by (simp_all add: c)
  then show "digit_char d \<noteq> CHR ''-''" and "digit_char d \<noteq> CHR ''+''"
    by auto
qed

declare decimal.simps [simp del]

lemma decimal_digits: "list_all is_digit (decimal n)"
proof (induction n rule: decimal.induct)
  case (1 n)
  show ?case
  proof (cases "n < 10")
    case True
    then show ?thesis by (simp add: decimal.simps [of n] digit_char_facts)
  next
    case False
    with "1" show ?thesis by (simp add: decimal.simps [of n] digit_char_facts)
  qed
qed

lemma decimal_value: "foldl (\<lambda>v ch. v * 10 + digit_value ch) 0 (decimal n) = n"
proof (induction n rule: decimal.induct)
  case (1 n)
  show ?case
  proof (cases "n < 10")
    case True
    then show ?thesis by (simp add: decimal.simps [of n] digit_char_facts)
  next
    case False
    with "1" show ?thesis by (simp add: decimal.simps [of n] digit_char_facts)
  qed
qed

lemma decimal_not_empty: "decimal n \<noteq> []"
  by (simp add: decimal.simps [of n])

lemma parseInt_decimal: "parseInt (decimal n) = Some (int n)"
proof -
  obtain ch rest where d: "decimal n = ch # rest"
    using decimal_not_empty [of n] by (cases "decimal n") simp_all
  have digits: "list_all is_digit (ch # rest)"
    using decimal_digits [of n] by (simp add: d)
  then have "is_digit ch" by simp
  then have first: "\<not> is_space ch" "ch \<noteq> CHR ''-''" "ch \<noteq> CHR ''+''"
    by (auto simp add: is_digit_def is_space_def)
  have all: "takeWhile is_digit (ch # rest) = ch # rest"
    using digits by (simp add: takeWhile_eq_all_conv list_all_iff)
  have "parseInt (ch # rest) =
          Some (int (foldl (\<lambda>v ch. v * 10 + digit_value ch) 0 (ch # rest)))"
    unfolding parseInt_def Let_def using first all by simp
  then show ?thesis
    using decimal_value [of n] by (simp add: d)
qed

lemma effective_port_of_text:
  assumes "protocol u = scheme @ '':''" and "port u = port_text explicit"
  shows "effective_port u = Some (int (explicit_or_default scheme explicit))"
proof (cases explicit)
  case None
  then show ?thesis using assms by (simp add: effective_port_def)
next
  case (Some n)
  then show ?thesis
    using assms by (simp add: effective_port_def decimal_not_empty parseInt_decimal)
qed


section \<open>The claims\<close>

text \<open>
  Claim C1. Let the resolver answer for a hostname with an address in the notation of
  its family: a dotted quad with family 4, or hexadecimal groups with family 6 (the
  notation in which resolvers print every address of the declared IPv6 ranges). Then
  \<^verbatim>\<open>isPrivateHostname\<close> returns true exactly when the address lies in one of the
  declared ranges of its family (0.0.0.0/8, 10.0.0.0/8, 100.64.0.0/10, 127.0.0.0/8,
  169.254.0.0/16, 172.16.0.0/12, 192.168.0.0/16, 198.18.0.0/15, 240.0.0.0/4; ::1/128,
  ::/128, fc00::/7, fe80::/10, each read as the interval of its addresses) or is
  169.254.169.254, and false otherwise. When it is so, no URL with that hostname is
  accepted, and a URL that passes the four earlier checks is rejected with the
  private-network error.
\<close>

theorem private_addresses_rejected:
  assumes "lookup env h = Inr ip" and "resolved_address ip = Some x"
  shows "isPrivateHostname (lookup env) h = (Inr (declared_private x), [DnsLookup h]) \<and>
         (\<forall>s u. URL env s = Some u \<and> hostname u = h \<and> declared_private x \<longrightarrow>
            (\<forall>u'. fst (validateUrl env s) \<noteq> Inr u') \<and>
            (scheme_allowed u \<and> port_allowed u \<and> isValid env h \<longrightarrow>
               validateUrl env s = (Inl Error_PrivateNetwork, [DnsLookup h])))"
proof -
  have p: "isPrivateHostname (lookup env) h = (Inr (declared_private x), [DnsLookup h])"
    using assms by (rule isPrivateHostname_resolved)
  have "fst (validateUrl env s) \<noteq> Inr u'"
    if "URL env s = Some u" "hostname u = h" "declared_private x" for s u u'
    using that p by (intro validateUrl_never_accepts [of env s u]) simp_all
  moreover have "validateUrl env s = (Inl Error_PrivateNetwork, [DnsLookup h])"
    if "URL env s = Some u" "hostname u = h" "declared_private x"
       "scheme_allowed u" "port_allowed u" "isValid env h" for s u
    using that p by (simp add: validateUrl_steps)
  ultimately show ?thesis using p by blast
qed

theorem private_addresses_rejected_witness:
  "validateUrl (sample_env (Some (sample_url ''http'' ''intranet.example.com'' [])) True
       (Inr \<lparr>address = Dotted 100 64 0 8 None, family = 4\<rparr>) NeverSettles)
     ''http://intranet.example.com/''
     = (Inl Error_PrivateNetwork, [DnsLookup ''intranet.example.com'']) \<and>
   validateUrl (sample_env (Some (sample_url ''http'' ''intranet.example.com'' [])) True
       (Inr \<lparr>address = Hex6 [0xfe80, 0, 0, 0, 0, 0, 0, 8] None, family = 6\<rparr>) NeverSettles)
     ''http://intranet.example.com/''
     = (Inl Error_PrivateNetwork, [DnsLookup ''intranet.example.com'']) \<and>
   isPrivateHostname
     (lookup (sample_env (Some (sample_url ''http'' ''intranet.example.com'' [])) True
       (Inr \<lparr>address = Dotted 100 128 0 8 None, family = 4\<rparr>) NeverSettles))
     ''intranet.example.com''
     = (Inr False, [DnsLookup ''intranet.example.com''])"
proof -
  let ?u = "sample_url ''http'' ''intranet.example.com'' []"
  let ?h = "''intranet.example.com''"
  let ?s = "''http://intranet.example.com/''"
  let ?ip4 = "\<lparr>address = Dotted 100 64 0 8 None, family = 4\<rparr>"
  let ?out = "\<lparr>address = Dotted 100 128 0 8 None, family = 4\<rparr>"
  let ?envo = "sample_env (Some ?u) True (Inr ?out) NeverSettles"
  let ?ip6 = "\<lparr>address = Hex6 [0xfe80, 0, 0, 0, 0, 0, 0, 8] None, family = 6\<rparr>"
  let ?env4 = "sample_env (Some ?u) True (Inr ?ip4) NeverSettles"
  let ?env6 = "sample_env (Some ?u) True (Inr ?ip6) NeverSettles"
  have u: "hostname ?u = ?h \<and> scheme_allowed ?u \<and> port_allowed ?u"
    by (simp add: sample_defs check_defs)
  have l4: "lookup ?env4 ?h = Inr ?ip4" and e4: "URL ?env4 ?s = Some ?u \<and> isValid ?env4 ?h"
    by (simp_all add: sample_env_def)
  have r4: "resolved_address ?ip4 = Some (V4 (ipv4_value 100 64 0 8))"
    by (simp add: resolved_address_def)
  have d4: "declared_private (V4 (ipv4_value 100 64 0 8))"
    by (simp add: declared_ipv4_ranges_def cidr_contains_def ipv4_value_def)
  have l6: "lookup ?env6 ?h = Inr ?ip6" and e6: "URL ?env6 ?s = Some ?u \<and> isValid ?env6 ?h"
    by (simp_all add: sample_env_def)
  have r6: "resolved_address ?ip6 = Some (V6 (ipv6_value [0xfe80, 0, 0, 0, 0, 0, 0, 8]))"
    by (simp add: resolved_address_def)
  have d6: "declared_private (V6 (ipv6_value [0xfe80, 0, 0, 0, 0, 0, 0, 8]))"
    by (simp add: declared_ipv6_ranges_def cidr_contains_def ipv6_value_def)
  have lo: "lookup ?envo ?h = Inr ?out"
    by (simp add: sample_env_def)
  have ro: "resolved_address ?out = Some (V4 (ipv4_value 100 128 0 8))"
    by (simp add: resolved_address_def)
  have no: "\<not> declared_private (V4 (ipv4_value 100 128 0 8))"
    by (simp add: declared_ipv4_ranges_def cidr_contains_def ipv4_value_def)
  have "validateUrl ?env4 ?s = (Inl Error_PrivateNetwork, [DnsLookup ?h])"
    using private_addresses_rejected [OF l4 r4] d4 u e4 by blast
  moreover have "validateUrl ?env6 ?s = (Inl Error_PrivateNetwork, [DnsLookup ?h])"
    using private_addresses_rejected [OF l6 r6] d6 u e6 by blast
  moreover have "isPrivateHostname (lookup ?envo) ?h = (Inr False, [DnsLookup ?h])"
    using private_addresses_rejected [OF lo ro] no by simp
  ultimately show ?thesis by simp
qed

text \<open>
  Claim C2, at the answers it is about: the resolver reports family 6 and an
  IPv4-mapped address in its usual notation, such as \<^verbatim>\<open>::ffff:10.0.0.1\<close>.
  \<^verbatim>\<open>normalizeIP\<close> folds the text to the dotted quad, but \<^verbatim>\<open>isPrivateHostname\<close> then
  branches on the reported family and builds an \<^verbatim>\<open>Address6\<close> from the dotted quad,
  which throws: whatever the embedded IPv4 address, private or not, the result is the
  error \<^verbatim>\<open>Invalid hostname\<close>. No range is tested, and the URL is not rejected with the
  private-network error.
\<close>

theorem mapped_address_fails_as_hostname:
  assumes "lookup env h = Inr ip" and "family ip = 6" and "address ip = mapped_dotted a b c d"
  shows "isPrivateHostname (lookup env) h = (Inl (Error_InvalidHostname h), [DnsLookup h]) \<and>
         (\<forall>s u. URL env s = Some u \<and> hostname u = h \<and>
                scheme_allowed u \<and> port_allowed u \<and> isValid env h \<longrightarrow>
            validateUrl env s = (Inl (Error_InvalidHostname h), [DnsLookup h]) \<and>
            fst (validateUrl env s) \<noteq> Inl Error_PrivateNetwork)"
proof -
  have p: "isPrivateHostname (lookup env) h = (Inl (Error_InvalidHostname h), [DnsLookup h])"
    using assms by (intro isPrivateHostname_dotted_tail [of _ _ ip]) (simp_all add: mapped_dotted_def)
  have "validateUrl env s = (Inl (Error_InvalidHostname h), [DnsLookup h])"
    if "URL env s = Some u" "hostname u = h" "scheme_allowed u" "port_allowed u" "isValid env h" for s u
    using that p by (simp add: validateUrl_steps)
  then show ?thesis using p by simp
qed

theorem mapped_address_fails_as_hostname_witness:
  "validateUrl (sample_env (Some (sample_url ''http'' ''intranet.example.com'' [])) True
       (Inr \<lparr>address = mapped_dotted 10 0 0 1, family = 6\<rparr>) NeverSettles)
     ''http://intranet.example.com/''
     = (Inl (Error_InvalidHostname ''intranet.example.com''), [DnsLookup ''intranet.example.com''])"
proof -
  let ?u = "sample_url ''http'' ''intranet.example.com'' []"
  let ?h = "''intranet.example.com''"
  let ?s = "''http://intranet.example.com/''"
  let ?ip = "\<lparr>address = mapped_dotted 10 0 0 1, family = 6\<rparr>"
  let ?env = "sample_env (Some ?u) True (Inr ?ip) NeverSettles"
  have u: "hostname ?u = ?h \<and> scheme_allowed ?u \<and> port_allowed ?u"
    by (simp add: sample_defs check_defs)
  have l: "lookup ?env ?h = Inr ?ip" and e: "URL ?env ?s = Some ?u \<and> isValid ?env ?h"
    by (simp_all add: sample_env_def)
  have f: "family ?ip = 6" and a: "address ?ip = mapped_dotted 10 0 0 1"
    by simp_all
  show ?thesis
    using mapped_address_fails_as_hostname [OF l f a] u e by blast
qed

text \<open>
  Claim C3, as the module has it. \<^verbatim>\<open>validateUrl\<close> runs its checks in the order parse,
  scheme, port, public suffix, private network, and stops at the first one that fails:
  a text that does not parse is rejected whatever else holds, a bad scheme is reported
  whatever the port and the host are, a bad port whatever the host is, and so on. The
  first four rejections happen with an empty list of events, so before the resolver is
  called; a URL that passes them is resolved, once. The parser's error, the scheme
  error, the port error and the private-network error each come from one check only,
  and tell which. The error \<^verbatim>\<open>Invalid hostname\<close> comes from two: from the public-suffix
  check, and from the private-network step when the resolver or an address constructor
  throws.
\<close>

theorem validateUrl_check_order:
  "(URL env s = None \<longrightarrow> validateUrl env s = (Inl TypeError_InvalidURL, [])) \<and>
   (\<forall>u. URL env s = Some u \<and> \<not> scheme_allowed u \<longrightarrow>
        validateUrl env s = (Inl (Error_InvalidScheme (protocol u)), [])) \<and>
   (\<forall>u. URL env s = Some u \<and> scheme_allowed u \<and> \<not> port_allowed u \<longrightarrow>
        validateUrl env s = (Inl (Error_InvalidPort (effective_port u)), [])) \<and>
   (\<forall>u. URL env s = Some u \<and> scheme_allowed u \<and> port_allowed u \<and> \<not> isValid env (hostname u) \<longrightarrow>
        validateUrl env s = (Inl (Error_InvalidHostname (hostname u)), [])) \<and>
   (\<forall>u. URL env s = Some u \<and> scheme_allowed u \<and> port_allowed u \<and> isValid env (hostname u) \<longrightarrow>
        validateUrl env s =
          ((case fst (isPrivateHostname (lookup env) (hostname u)) of
              Inl e \<Rightarrow> Inl (Error_InvalidHostname (hostname u))
            | Inr True \<Rightarrow> Inl Error_PrivateNetwork
            | Inr False \<Rightarrow> Inr u),
           [DnsLookup (hostname u)])) \<and>
   (fst (validateUrl env s) = Inl TypeError_InvalidURL \<longrightarrow> URL env s = None) \<and>
   (\<forall>p. fst (validateUrl env s) = Inl (Error_InvalidScheme p) \<longrightarrow>
        (\<exists>u. URL env s = Some u \<and> \<not> scheme_allowed u)) \<and>
   (\<forall>n. fst (validateUrl env s) = Inl (Error_InvalidPort n) \<longrightarrow>
        (\<exists>u. URL env s = Some u \<and> scheme_allowed u \<and> \<not> port_allowed u)) \<and>
   (fst (validateUrl env s) = Inl Error_PrivateNetwork \<longrightarrow>
        (\<exists>u. URL env s = Some u \<and> scheme_allowed u \<and> port_allowed u \<and> isValid env (hostname u) \<and>
             fst (isPrivateHostname (lookup env) (hostname u)) = Inr True)) \<and>
   (\<forall>h. fst (validateUrl env s) = Inl (Error_InvalidHostname h) \<longrightarrow>
        (\<exists>u. URL env s = Some u \<and> hostname u = h \<and> scheme_allowed u \<and> port_allowed u \<and>
             (\<not> isValid env h \<or> isl (fst (isPrivateHostname (lookup env) h)))))"
proof -
  have unparsed: "validateUrl env s = (Inl TypeError_InvalidURL, [])" if "URL env s = None"
    using that by (simp add: validateUrl_steps)
  have scheme: "validateUrl env s = (Inl (Error_InvalidScheme (protocol u)), [])"
    if "URL env s = Some u" "\<not> scheme_allowed u" for u
    using that by (simp add: validateUrl_steps)
  have port: "validateUrl env s = (Inl (Error_InvalidPort (effective_port u)), [])"
    if "URL env s = Some u" "scheme_allowed u" "\<not> port_allowed u" for u
    using that by (simp add: validateUrl_steps)
  have suffix: "validateUrl env s = (Inl (Error_InvalidHostname (hostname u)), [])"
    if "URL env s = Some u" "scheme_allowed u" "port_allowed u" "\<not> isValid env (hostname u)" for u
    using that by (simp add: validateUrl_steps)
  have resolved: "validateUrl env s =
          ((case fst (isPrivateHostname (lookup env) (hostname u)) of
              Inl e \<Rightarrow> Inl (Error_InvalidHostname (hostname u))
            | Inr True \<Rightarrow> Inl Error_PrivateNetwork
            | Inr False \<Rightarrow> Inr u),
           [DnsLookup (hostname u)])"
    if "URL env s = Some u" "scheme_allowed u" "port_allowed u" "isValid env (hostname u)" for u
  proof (cases "fst (isPrivateHostname (lookup env) (hostname u))")
    case (Inl e)
    with that isPrivateHostname_error [OF Inl] show ?thesis
      by (simp add: validateUrl_steps)
  next
    case (Inr verdict)
    with that show ?thesis by (simp add: validateUrl_steps)
  qed
  note forward = unparsed scheme port suffix resolved
  have backward:
    "fst (validateUrl env s) = Inl TypeError_InvalidURL \<longrightarrow> URL env s = None"
    "\<And>p. fst (validateUrl env s) = Inl (Error_InvalidScheme p) \<longrightarrow>
        (\<exists>u. URL env s = Some u \<and> \<not> scheme_allowed u)"
    "\<And>n. fst (validateUrl env s) = Inl (Error_InvalidPort n) \<longrightarrow>
        (\<exists>u. URL env s = Some u \<and> scheme_allowed u \<and> \<not> port_allowed u)"
    "fst (validateUrl env s) = Inl Error_PrivateNetwork \<longrightarrow>
        (\<exists>u. URL env s = Some u \<and> scheme_allowed u \<and> port_allowed u \<and> isValid env (hostname u) \<and>
             fst (isPrivateHostname (lookup env) (hostname u)) = Inr True)"
    using validateUrl_error_origin [of env s] by blast+
  have hostname: "\<exists>u. URL env s = Some u \<and> hostname u = h \<and> scheme_allowed u \<and> port_allowed u \<and>
             (\<not> isValid env h \<or> isl (fst (isPrivateHostname (lookup env) h)))"
    if "fst (validateUrl env s) = Inl (Error_InvalidHostname h)" for h
    using that by (rule validateUrl_InvalidHostname_origin)
  from forward backward hostname show ?thesis by blast
qed

theorem validateUrl_check_order_witness:
  "validateUrl (sample_env None False (Inl (LookupError ''ENOTFOUND'')) NeverSettles) ''not a url''
     = (Inl TypeError_InvalidURL, []) \<and>
   validateUrl (sample_env (Some (sample_url ''ftp'' ''localhost'' ''8080'')) False
                 (Inr \<lparr>address = Dotted 127 0 0 53 None, family = 4\<rparr>) NeverSettles)
       ''ftp://localhost:8080/''
     = (Inl (Error_InvalidScheme ''ftp:''), []) \<and>
   validateUrl (sample_env (Some (sample_url ''http'' ''localhost'' ''8080'')) False
                 (Inr \<lparr>address = Dotted 127 0 0 53 None, family = 4\<rparr>) NeverSettles)
       ''http://localhost:8080/''
     = (Inl (Error_InvalidPort (Some 8080)), []) \<and>
   validateUrl (sample_env (Some (sample_url ''http'' ''localhost'' [])) False
                 (Inr \<lparr>address = Dotted 127 0 0 53 None, family = 4\<rparr>) NeverSettles)
       ''http://localhost/''
     = (Inl (Error_InvalidHostname ''localhost''), []) \<and>
   validateUrl (sample_env (Some (sample_url ''http'' ''intranet.example.com'' [])) True
                 (Inr \<lparr>address = Dotted 127 0 0 53 None, family = 4\<rparr>) NeverSettles)
       ''http://intranet.example.com/''
     = (Inl Error_PrivateNetwork, [DnsLookup ''intranet.example.com'']) \<and>
   validateUrl (sample_env (Some (sample_url ''http'' ''no-such-host.example.com'' [])) True
                 (Inl (LookupError ''ENOTFOUND'')) NeverSettles)
       ''http://no-such-host.example.com/''
     = (Inl (Error_InvalidHostname ''no-such-host.example.com''),
        [DnsLookup ''no-such-host.example.com''])"
proof -
  let ?answer = "Inr \<lparr>address = Dotted 127 0 0 53 None, family = 4\<rparr>"
  let ?e0 = "sample_env None False (Inl (LookupError ''ENOTFOUND'')) NeverSettles"
  let ?e1 = "sample_env (Some (sample_url ''ftp'' ''localhost'' ''8080'')) False ?answer NeverSettles"
  let ?e2 = "sample_env (Some (sample_url ''http'' ''localhost'' ''8080'')) False ?answer NeverSettles"
  let ?e3 = "sample_env (Some (sample_url ''http'' ''localhost'' [])) False ?answer NeverSettles"
  let ?e4 = "sample_env (Some (sample_url ''http'' ''intranet.example.com'' [])) True ?answer NeverSettles"
  let ?e5 = "sample_env (Some (sample_url ''http'' ''no-such-host.example.com'' [])) True
               (Inl (LookupError ''ENOTFOUND'')) NeverSettles"
  have "validateUrl ?e0 ''not a url'' = (Inl TypeError_InvalidURL, [])"
    using validateUrl_check_order [of ?e0 "''not a url''"] by (simp add: sample_defs)
  moreover have "validateUrl ?e1 ''ftp://localhost:8080/'' = (Inl (Error_InvalidScheme ''ftp:''), [])"
    using validateUrl_check_order [of ?e1 "''ftp://localhost:8080/''"]
    by (simp add: sample_defs check_defs)
  moreover have "validateUrl ?e2 ''http://localhost:8080/'' = (Inl (Error_InvalidPort (Some 8080)), [])"
    using validateUrl_check_order [of ?e2 "''http://localhost:8080/''"]
    by (simp add: sample_defs check_defs)
  moreover have "validateUrl ?e3 ''http://localhost/'' = (Inl (Error_InvalidHostname ''localhost''), [])"
    using validateUrl_check_order [of ?e3 "''http://localhost/''"]
    by (simp add: sample_defs check_defs)
  moreover have "validateUrl ?e4 ''http://intranet.example.com/''
      = (Inl Error_PrivateNetwork, [DnsLookup ''intranet.example.com''])"
    using validateUrl_check_order [of ?e4 "''http://intranet.example.com/''"]
    by (simp add: sample_defs check_defs loopback_is_private)
  moreover have "validateUrl ?e5 ''http://no-such-host.example.com/''
      = (Inl (Error_InvalidHostname ''no-such-host.example.com''),
         [DnsLookup ''no-such-host.example.com''])"
    using validateUrl_check_order [of ?e5 "''http://no-such-host.example.com/''"]
    by (simp add: sample_defs check_defs isPrivateHostname_lookup_fails)
  ultimately show ?thesis by simp
qed

text \<open>
  The private-network step has no error of its own for every failure: on a host that
  passes the public-suffix check and does not resolve, it raises \<^verbatim>\<open>Invalid hostname\<close>,
  the error of the public-suffix check (here for the single label \<^verbatim>\<open>localhost\<close>), after
  the resolver has been called.
\<close>

theorem hostname_error_from_two_checks:
  "validateUrl (sample_env (Some (sample_url ''http'' ''localhost'' [])) False
                 (Inr \<lparr>address = Dotted 127 0 0 53 None, family = 4\<rparr>) NeverSettles)
       ''http://localhost/''
     = (Inl (Error_InvalidHostname ''localhost''), []) \<and>
   validateUrl (sample_env (Some (sample_url ''http'' ''no-such-host.example.com'' [])) True
                 (Inl (LookupError ''ENOTFOUND'')) NeverSettles)
       ''http://no-such-host.example.com/''
     = (Inl (Error_InvalidHostname ''no-such-host.example.com''),
        [DnsLookup ''no-such-host.example.com'']) \<and>
   fst (validateUrl (sample_env (Some (sample_url ''http'' ''no-such-host.example.com'' [])) True
                 (Inl (LookupError ''ENOTFOUND'')) NeverSettles)
       ''http://no-such-host.example.com/'')
     \<noteq> Inl Error_PrivateNetwork"
  by (simp add: validateUrl_steps sample_defs check_defs isPrivateHostname_lookup_fails)

text \<open>
  Claim C4, as the module has it. When the resolver fails for a hostname, or answers
  with a text that neither address constructor accepts, \<^verbatim>\<open>isPrivateHostname\<close> fails
  with the error \<^verbatim>\<open>Invalid hostname: <hostname>\<close>; it does not return false, no URL with that
  hostname is accepted, and a URL that passes the scheme and port checks is rejected
  with that error.
\<close>

theorem resolution_failure_rejects:
  assumes "lookup env h = Inl e \<or>
           (\<exists>ip. lookup env h = Inr ip \<and> isl (Address4 (address ip)) \<and> isl (Address6 (address ip)))"
  shows "isPrivateHostname (lookup env) h = (Inl (Error_InvalidHostname h), [DnsLookup h]) \<and>
         (\<forall>s u. URL env s = Some u \<and> hostname u = h \<longrightarrow>
            (\<forall>u'. fst (validateUrl env s) \<noteq> Inr u') \<and>
            (scheme_allowed u \<and> port_allowed u \<longrightarrow>
               fst (validateUrl env s) = Inl (Error_InvalidHostname h)))"
proof -
  have p: "isPrivateHostname (lookup env) h = (Inl (Error_InvalidHostname h), [DnsLookup h])"
    using assms isPrivateHostname_lookup_fails [of "lookup env" h]
      isPrivateHostname_malformed [of "lookup env" h]
    by blast
  have "fst (validateUrl env s) \<noteq> Inr u'" if "URL env s = Some u" "hostname u = h" for s u u'
    using that p by (intro validateUrl_never_accepts [of env s u]) simp_all
  moreover have "fst (validateUrl env s) = Inl (Error_InvalidHostname h)"
    if "URL env s = Some u" "hostname u = h" "scheme_allowed u" "port_allowed u" for s u
    using that p validateUrl_hostname_error [of env s u "Error_InvalidHostname h"] by simp
  ultimately show ?thesis using p by blast
qed

theorem resolution_failure_rejects_witness:
  "isPrivateHostname
     (lookup (sample_env (Some (sample_url ''http'' ''no-such-host.example.com'' [])) True
        (Inl (LookupError ''ENOTFOUND'')) NeverSettles))
     ''no-such-host.example.com''
     = (Inl (Error_InvalidHostname ''no-such-host.example.com''),
        [DnsLookup ''no-such-host.example.com'']) \<and>
   fst (validateUrl
     (sample_env (Some (sample_url ''http'' ''no-such-host.example.com'' [])) True
        (Inl (LookupError ''ENOTFOUND'')) NeverSettles)
     ''http://no-such-host.example.com/'')
     = Inl (Error_InvalidHostname ''no-such-host.example.com'') \<and>
   isPrivateHostname
     (lookup (sample_env (Some (sample_url ''http'' ''odd.example.com'' [])) True
        (Inr \<lparr>address = Malformed True, family = 6\<rparr>) NeverSettles))
     ''odd.example.com''
     = (Inl (Error_InvalidHostname ''odd.example.com''), [DnsLookup ''odd.example.com''])"
proof -
  let ?u = "sample_url ''http'' ''no-such-host.example.com'' []"
  let ?h = "''no-such-host.example.com''"
  let ?s = "''http://no-such-host.example.com/''"
  let ?env = "sample_env (Some ?u) True (Inl (LookupError ''ENOTFOUND'')) NeverSettles"
  have u: "hostname ?u = ?h \<and> scheme_allowed ?u \<and> port_allowed ?u"
    by (simp add: sample_defs check_defs)
  have l: "lookup ?env ?h = Inl (LookupError ''ENOTFOUND'')" and e: "URL ?env ?s = Some ?u"
    by (simp_all add: sample_env_def)
  let ?odd = "\<lparr>address = Malformed True, family = 6\<rparr>"
  let ?env' = "sample_env (Some (sample_url ''http'' ''odd.example.com'' [])) True (Inr ?odd) NeverSettles"
  have l': "lookup ?env' ''odd.example.com'' = Inr ?odd"
    by (simp add: sample_env_def)
  have m: "isl (Address4 (address ?odd)) \<and> isl (Address6 (address ?odd))"
    by simp
  have "isPrivateHostname (lookup ?env') ''odd.example.com''
          = (Inl (Error_InvalidHostname ''odd.example.com''), [DnsLookup ''odd.example.com''])"
    using resolution_failure_rejects [of ?env' "''odd.example.com''"] l' m by blast
  then show ?thesis
    using resolution_failure_rejects [of ?env ?h "LookupError ''ENOTFOUND''"] l u e by blast
qed

text \<open>
  The two failures of C4 do not have errors of their own: a failed resolution and a
  malformed address text raise the same error, which is also the error of a hostname
  that fails the public-suffix check.
\<close>

theorem resolution_and_address_errors_coincide:
  "fst (isPrivateHostname
          (lookup (sample_env None True (Inl (LookupError ''ENOTFOUND'')) NeverSettles))
          ''host.example.com'')
     = Inl (Error_InvalidHostname ''host.example.com'') \<and>
   fst (isPrivateHostname
          (lookup (sample_env None True (Inr \<lparr>address = Malformed False, family = 4\<rparr>) NeverSettles))
          ''host.example.com'')
     = Inl (Error_InvalidHostname ''host.example.com'') \<and>
   fst (validateUrl
          (sample_env (Some (sample_url ''http'' ''host.example.com'' [])) False
             (Inr \<lparr>address = Dotted 93 184 216 34 None, family = 4\<rparr>) NeverSettles)
          ''http://host.example.com/'')
     = Inl (Error_InvalidHostname ''host.example.com'')"
  by (simp add: isPrivateHostname_def normalizeIP_def validateUrl_steps sample_defs check_defs)

text \<open>
  Claim C5. When validation fails, \<^verbatim>\<open>serverFetch\<close> fails with the same error and its
  events contain no call of the transport; and whenever the events contain a call of the
  transport, validation has succeeded.
\<close>

theorem serverFetch_propagates_rejection:
  "(fst (validateUrl env (toString a)) = Inl e \<longrightarrow>
      fst (serverFetch env a opts) = Inl e \<and> \<not> list_ex is_Fetch (snd (serverFetch env a opts))) \<and>
   (list_ex is_Fetch (snd (serverFetch env a opts)) \<longrightarrow>
      (\<exists>u. fst (validateUrl env (toString a)) = Inr u))"
proof (cases "fst (validateUrl env (toString a))")
  case (Inl e')
  then show ?thesis
    using no_Fetch_in_validation [of env "toString a"]
    by (simp add: serverFetch_rejected)
next
  case (Inr u)
  then show ?thesis by simp
qed

theorem serverFetch_propagates_rejection_witness:
  "fst (serverFetch (sample_env (Some (sample_url ''http'' ''intranet.example.com'' [])) True
          (Inr \<lparr>address = Dotted 127 0 0 53 None, family = 4\<rparr>)
          (SettlesAfter 5 (Inr (Response 200 ''secret''))))
        (UrlString ''http://intranet.example.com/'') no_options) = Inl Error_PrivateNetwork \<and>
   \<not> list_ex is_Fetch
       (snd (serverFetch (sample_env (Some (sample_url ''http'' ''intranet.example.com'' [])) True
          (Inr \<lparr>address = Dotted 127 0 0 53 None, family = 4\<rparr>)
          (SettlesAfter 5 (Inr (Response 200 ''secret''))))
        (UrlString ''http://intranet.example.com/'') no_options))"
proof -
  let ?env = "sample_env (Some (sample_url ''http'' ''intranet.example.com'' [])) True
          (Inr \<lparr>address = Dotted 127 0 0 53 None, family = 4\<rparr>)
          (SettlesAfter 5 (Inr (Response 200 ''secret'')))"
  have "fst (validateUrl ?env (toString (UrlString ''http://intranet.example.com/'')))
          = Inl Error_PrivateNetwork"
    by (simp add: validateUrl_steps sample_defs check_defs loopback_is_private)
  with serverFetch_propagates_rejection
         [of ?env "UrlString ''http://intranet.example.com/''" Error_PrivateNetwork no_options]
  show ?thesis by simp
qed

text \<open>
  Claim C6. Take a URL with the scheme http or https and with an explicit port or
  none, as the URL object presents it: the scheme with a colon in \<^verbatim>\<open>protocol\<close>, the
  decimal numeral of the port, or nothing, in \<^verbatim>\<open>port\<close>. Its effective port is the
  explicit port when there is one, else 443 for https and 80 for http. \<^verbatim>\<open>validateUrl\<close>
  raises the port error exactly when the effective port is neither 80 nor 443, and the
  error reports the effective port. In particular an https URL with the explicit port
  80 passes the port check.
\<close>

theorem port_check_on_effective_port:
  assumes "URL env s = Some u" and "scheme = ''http'' \<or> scheme = ''https''"
    and "protocol u = scheme @ '':''" and "port u = port_text explicit"
  shows "((\<exists>e. fst (validateUrl env s) = Inl (Error_InvalidPort e)) \<longleftrightarrow>
            \<not> (explicit_or_default scheme explicit = 80 \<or> explicit_or_default scheme explicit = 443)) \<and>
         (\<forall>e. fst (validateUrl env s) = Inl (Error_InvalidPort e) \<longrightarrow>
            e = Some (int (explicit_or_default scheme explicit))) \<and>
         (scheme = ''https'' \<and> explicit = Some 80 \<longrightarrow>
            (\<forall>e. fst (validateUrl env s) \<noteq> Inl (Error_InvalidPort e)))"
proof -
  let ?n = "explicit_or_default scheme explicit"
  have allowed: "scheme_allowed u"
    using assms(2,3) by (auto simp add: scheme_allowed_def)
  have number: "effective_port u = Some (int ?n)"
    using assms(3,4) by (rule effective_port_of_text)
  have check: "port_allowed u \<longleftrightarrow> ?n = 80 \<or> ?n = 443"
    by (simp add: port_allowed_def number)
  have bad: "fst (validateUrl env s) = Inl (Error_InvalidPort (Some (int ?n)))" if "\<not> port_allowed u"
    using that assms(1) allowed number by (simp add: validateUrl_steps)
  have good: "fst (validateUrl env s) \<noteq> Inl (Error_InvalidPort e)" if "port_allowed u" for e
    using that assms(1) validateUrl_port_error [of env s e] by auto
  have "(\<exists>e. fst (validateUrl env s) = Inl (Error_InvalidPort e)) \<longleftrightarrow> \<not> (?n = 80 \<or> ?n = 443)"
    using bad good check by blast
  moreover have "e = Some (int ?n)" if "fst (validateUrl env s) = Inl (Error_InvalidPort e)" for e
    using that bad good [of e] by (cases "port_allowed u") simp_all
  moreover have "fst (validateUrl env s) \<noteq> Inl (Error_InvalidPort e)"
    if "scheme = ''https'' \<and> explicit = Some 80" for e
    using that good [of e] check by simp
  ultimately show ?thesis by blast
qed

theorem port_check_on_effective_port_witness:
  "fst (validateUrl (sample_env (Some (sample_url ''https'' ''example.com'' ''80'')) True
          (Inr \<lparr>address = Dotted 93 184 216 34 None, family = 4\<rparr>) NeverSettles)
        ''https://example.com:80/'') \<noteq> Inl (Error_InvalidPort (Some 80)) \<and>
   fst (validateUrl (sample_env (Some (sample_url ''http'' ''example.com'' ''8080'')) True
          (Inr \<lparr>address = Dotted 93 184 216 34 None, family = 4\<rparr>) NeverSettles)
        ''http://example.com:8080/'') = Inl (Error_InvalidPort (Some 8080)) \<and>
   fst (validateUrl (sample_env (Some (sample_url ''http'' ''example.com'' ''44'')) True
          (Inr \<lparr>address = Dotted 93 184 216 34 None, family = 4\<rparr>) NeverSettles)
        ''http://example.com:44/'') = Inl (Error_InvalidPort (Some 44))"
proof -
  let ?answer = "Inr \<lparr>address = Dotted 93 184 216 34 None, family = 4\<rparr>"
  let ?u = "sample_url ''https'' ''example.com'' ''80''"
  let ?v = "sample_url ''http'' ''example.com'' ''8080''"
  let ?w = "sample_url ''http'' ''example.com'' ''44''"
  let ?eu = "sample_env (Some ?u) True ?answer NeverSettles"
  let ?ev = "sample_env (Some ?v) True ?answer NeverSettles"
  let ?ew = "sample_env (Some ?w) True ?answer NeverSettles"
  have texts: "decimal 80 = ''80''" "decimal 8080 = ''8080''" "decimal 44 = ''44''"
    by (simp_all add: decimal.simps digit_char_def char_of_def bit_Suc_0_iff)
  have u: "URL ?eu ''https://example.com:80/'' = Some ?u" "protocol ?u = ''https'' @ '':''"
      "port ?u = port_text (Some 80)"
    by (simp_all add: sample_defs texts)
  have v: "URL ?ev ''http://example.com:8080/'' = Some ?v" "protocol ?v = ''http'' @ '':''"
      "port ?v = port_text (Some 8080)"
    by (simp_all add: sample_defs texts)
  have w: "URL ?ew ''http://example.com:44/'' = Some ?w" "protocol ?w = ''http'' @ '':''"
      "port ?w = port_text (Some 44)"
    by (simp_all add: sample_defs texts)
  have "fst (validateUrl ?eu ''https://example.com:80/'') \<noteq> Inl (Error_InvalidPort (Some 80))"
    using port_check_on_effective_port [OF u(1) _ u(2) u(3)] by simp
  moreover have "fst (validateUrl ?ev ''http://example.com:8080/'') = Inl (Error_InvalidPort (Some 8080))"
    using port_check_on_effective_port [OF v(1) _ v(2) v(3)] by auto
  moreover have "fst (validateUrl ?ew ''http://example.com:44/'') = Inl (Error_InvalidPort (Some 44))"
    using port_check_on_effective_port [OF w(1) _ w(2) w(3)] by auto
  ultimately show ?thesis by simp
qed




text \<open>
  Claim C8. On success \<^verbatim>\<open>validateUrl\<close> returns the URL object that the parser built,
  unchanged. \<^verbatim>\<open>serverFetch\<close> then calls the transport once, with that URL and with the
  caller's options in which only \<^verbatim>\<open>signal\<close> is replaced, by the signal of the
  controller it created: method, headers, body, credentials (and the timeout field) are
  the caller's.
\<close>

theorem validated_url_and_options_forwarded:
  "(fst (validateUrl env s) = Inr u \<longrightarrow> URL env s = Some u) \<and>
   (fst (validateUrl env (toString a)) = Inr u \<longrightarrow>
      filter is_Fetch (snd (serverFetch env a opts)) =
        [Fetch u (opts\<lparr>signal := Some ControllerSignal\<rparr>)]) \<and>
   signal (opts\<lparr>signal := Some ControllerSignal\<rparr>) = Some ControllerSignal \<and>
   http_method (opts\<lparr>signal := Some ControllerSignal\<rparr>) = http_method opts \<and>
   headers (opts\<lparr>signal := Some ControllerSignal\<rparr>) = headers opts \<and>
   body (opts\<lparr>signal := Some ControllerSignal\<rparr>) = body opts \<and>
   credentials (opts\<lparr>signal := Some ControllerSignal\<rparr>) = credentials opts \<and>
   timeout (opts\<lparr>signal := Some ControllerSignal\<rparr>) = timeout opts"
proof -
  have "fst (validateUrl env s) = Inr u \<Longrightarrow> URL env s = Some u"
    using validateUrl_accepts by blast
  moreover have "fst (validateUrl env (toString a)) = Inr u \<Longrightarrow>
      filter is_Fetch (snd (serverFetch env a opts)) =
        [Fetch u (opts\<lparr>signal := Some ControllerSignal\<rparr>)]"
    using validateUrl_accepts [of env "toString a" u]
    by (simp add: serverFetch_accepted Let_def split: race.splits)
  ultimately show ?thesis by simp
qed

theorem validated_url_and_options_forwarded_witness:
  "filter is_Fetch
     (snd (serverFetch (sample_env (Some (sample_url ''https'' ''example.com'' [])) True
          (Inr \<lparr>address = Dotted 93 184 216 34 None, family = 4\<rparr>)
          (SettlesAfter 120 (Inr (Response 200 ''ok''))))
        (UrlString ''https://example.com/'') sample_options)) =
   [Fetch (sample_url ''https'' ''example.com'' [])
      (sample_options\<lparr>signal := Some ControllerSignal\<rparr>)]"
proof -
  let ?u = "sample_url ''https'' ''example.com'' []"
  let ?env = "sample_env (Some ?u) True
      (Inr \<lparr>address = Dotted 93 184 216 34 None, family = 4\<rparr>)
      (SettlesAfter 120 (Inr (Response 200 ''ok'')))"
  let ?a = "UrlString ''https://example.com/''"
  have ok: "fst (validateUrl ?env (toString ?a)) = Inr ?u"
    by (simp add: validateUrl_steps sample_env_def sample_url_def check_defs public_v4_is_not_private)
  then show ?thesis
    using validated_url_and_options_forwarded [of ?env "toString ?a" ?u ?a sample_options]
    by blast
qed


text \<open>
  Claim C10. The abort controller and the timer are created only after validation has
  succeeded. On a rejected input the events of \<^verbatim>\<open>serverFetch\<close> are those of the
  validation alone, with no controller and no timer among them; on an accepted input
  the controller and the timer come after all events of the validation.
\<close>

theorem no_timer_before_validation_succeeds:
  "(fst (validateUrl env (toString a)) = Inl e \<longrightarrow>
      snd (serverFetch env a opts) = snd (validateUrl env (toString a)) \<and>
      \<not> list_ex is_SetTimeout (snd (serverFetch env a opts)) \<and>
      NewAbortController \<notin> set (snd (serverFetch env a opts))) \<and>
   (fst (validateUrl env (toString a)) = Inr u \<longrightarrow>
      (\<exists>ms rest. snd (serverFetch env a opts) =
         snd (validateUrl env (toString a)) @ NewAbortController # SetTimeout ms # rest)) \<and>
   \<not> list_ex is_SetTimeout (snd (validateUrl env (toString a))) \<and>
   NewAbortController \<notin> set (snd (validateUrl env (toString a)))"
proof -
  have "fst (validateUrl env (toString a)) = Inl e \<Longrightarrow>
      snd (serverFetch env a opts) = snd (validateUrl env (toString a))"
    by (simp add: serverFetch_rejected)
  moreover have "fst (validateUrl env (toString a)) = Inr u \<Longrightarrow>
      \<exists>ms rest. snd (serverFetch env a opts) =
         snd (validateUrl env (toString a)) @ NewAbortController # SetTimeout ms # rest"
    by (simp add: serverFetch_accepted Let_def split: race.splits)
  ultimately show ?thesis
    using no_timer_in_validation [of env "toString a"] by simp
qed

theorem no_timer_before_validation_succeeds_witness:
  "snd (serverFetch (sample_env (Some (sample_url ''http'' ''intranet.example.com'' [])) True
          (Inr \<lparr>address = Dotted 127 0 0 53 None, family = 4\<rparr>)
          (SettlesAfter 5 (Inr (Response 200 ''secret''))))
        (UrlString ''http://intranet.example.com/'') sample_options)
     = [DnsLookup ''intranet.example.com'']"
proof -
  let ?env = "sample_env (Some (sample_url ''http'' ''intranet.example.com'' [])) True
          (Inr \<lparr>address = Dotted 127 0 0 53 None, family = 4\<rparr>)
          (SettlesAfter 5 (Inr (Response 200 ''secret'')))"
  let ?a = "UrlString ''http://intranet.example.com/''"
  have v: "validateUrl ?env (toString ?a)
             = (Inl Error_PrivateNetwork, [DnsLookup ''intranet.example.com''])"
    by (simp add: validateUrl_steps sample_env_def sample_url_def check_defs loopback_is_private)
  then have "fst (validateUrl ?env (toString ?a)) = Inl Error_PrivateNetwork" by simp
  with no_timer_before_validation_succeeds [of ?env ?a Error_PrivateNetwork sample_options]
  have "snd (serverFetch ?env ?a sample_options) = snd (validateUrl ?env (toString ?a))"
    by blast
  with v show ?thesis by simp
qed

end
